theory Spec2Isabelle
  imports Complex_Main
begin

section \<open>Exceptions, values and awaits shared by both modules\<close>

text \<open>
  What a Python callable can raise. The first four are the exception classes of
  \<^verbatim>\<open>error_recovery.py\<close>, all direct subclasses of \<^verbatim>\<open>Exception\<close>.
  \<open>StopIteration\<close> is the builtin class of that name, a subclass of \<^verbatim>\<open>Exception\<close>
  that asyncio treats in its own way. \<open>OtherException\<close> stands for every other subclass of
  \<^verbatim>\<open>Exception\<close> (\<^verbatim>\<open>asyncio.TimeoutError\<close>, \<^verbatim>\<open>ValueError\<close>, \<^verbatim>\<open>OverflowError\<close>,
  \<^verbatim>\<open>RuntimeError\<close>, the plain \<^verbatim>\<open>Exception("...")\<close> the code raises itself).
  \<open>BaseExceptionOnly\<close> stands for the classes that derive from \<^verbatim>\<open>BaseException\<close> but
  not from \<^verbatim>\<open>Exception\<close> (\<^verbatim>\<open>KeyboardInterrupt\<close>, \<^verbatim>\<open>SystemExit\<close>), which a handler
  \<^verbatim>\<open>except Exception\<close> does not match. Each carries its message.
\<close>

datatype exn =
    TransientError string
  | RecoverableError string
  | PermanentError string
  | CatastrophicError string
  | OtherException string
  | StopIteration string
  | BaseExceptionOnly string

text \<open>\<^verbatim>\<open>str(e)\<close>: the message of an exception.\<close>

fun str_exn :: "exn \<Rightarrow> string" where
  "str_exn (TransientError m) = m"
| "str_exn (RecoverableError m) = m"
| "str_exn (PermanentError m) = m"
| "str_exn (CatastrophicError m) = m"
| "str_exn (OtherException m) = m"
| "str_exn (StopIteration m) = m"
| "str_exn (BaseExceptionOnly m) = m"

text \<open>\<^verbatim>\<open>isinstance(e, Exception)\<close>: whether a handler \<^verbatim>\<open>except Exception\<close> matches.\<close>

fun is_Exception :: "exn \<Rightarrow> bool" where
  "is_Exception (BaseExceptionOnly m) = False"
| "is_Exception e = True"

text \<open>
  How the evaluation of an \<^verbatim>\<open>await\<close> or of a coroutine of the modules ends: it returns
  a value, it raises, or it never completes.
\<close>

datatype 'a exit = Returns 'a | Raises exn | Hangs

text \<open>
  A \<^verbatim>\<open>StopIteration\<close> that leaves the body of a coroutine is replaced by Python with
  \<^verbatim>\<open>RuntimeError("coroutine raised StopIteration")\<close>; every other exception leaves it
  unchanged. \<open>await_coroutine f\<close> is the evaluation of \<^verbatim>\<open>await f()\<close> for a coroutine
  function with body \<open>f\<close>.
\<close>

fun leave_coroutine :: "exn \<Rightarrow> exn" where
  "leave_coroutine (StopIteration m) = OtherException ''coroutine raised StopIteration''"
| "leave_coroutine e = e"

definition await_coroutine :: "('w \<Rightarrow> (exn + 'a) \<times> 'w) \<Rightarrow> 'w \<Rightarrow> (exn + 'a) \<times> 'w" where
  "await_coroutine f w =
     (case f w of
        (Inr v, w') \<Rightarrow> (Inr v, w')
      | (Inl e, w') \<Rightarrow> (Inl (leave_coroutine e), w'))"

text \<open>
  \<^verbatim>\<open>await loop.run_in_executor(None, f)\<close> for a plain callable \<open>f\<close>, which runs in a
  worker thread. What \<open>f\<close> returns is the value of the await, and an exception of \<open>f\<close>
  (of any class, \<^verbatim>\<open>KeyboardInterrupt\<close> and \<^verbatim>\<open>SystemExit\<close> included) is raised by the
  await; but a \<^verbatim>\<open>StopIteration\<close> cannot be set on the future of the await (asyncio
  refuses it with a \<^verbatim>\<open>TypeError\<close> inside its own callback), so that future is never
  done and the await never completes.
\<close>

definition run_in_executor :: "('w \<Rightarrow> (exn + 'a) \<times> 'w) \<Rightarrow> 'w \<Rightarrow> 'a exit \<times> 'w" where
  "run_in_executor f w =
     (case f w of
        (Inr v, w') \<Rightarrow> (Returns v, w')
      | (Inl e, w') \<Rightarrow>
          (case e of
             StopIteration m \<Rightarrow> (Hangs, w')
           | _ \<Rightarrow> (Raises e, w')))"

section \<open>The DAG executor (\<^verbatim>\<open>dag_executor.py\<close>)\<close>

datatype StepStatus = PENDING | READY | RUNNING | COMPLETED | FAILED | SKIPPED

text \<open>
  A \<^verbatim>\<open>DAGStep\<close>. The action is an arbitrary Python callable: it is modelled as a
  state-passing function on a world \<open>'w\<close> (everything the callable can read and change)
  that either returns a string or raises. The keyword arguments \<^verbatim>\<open>params\<close> are only ever
  passed to the action, so the action of the model is the callable already applied to them.
  The field \<^verbatim>\<open>id\<close> is called \<open>step_id\<close> because \<open>id\<close> is the identity function of HOL.
\<close>

record 'w DAGStep =
  step_id :: string
  name :: string
  action :: "'w \<Rightarrow> (exn + string) \<times> 'w"
  depends_on :: "string list"
  status :: StepStatus
  result :: string
  error :: "string option"



text \<open>
  \<^verbatim>\<open>get_ready_steps\<close> walks the list, mutates the status of the step objects in place and
  returns the list \<^verbatim>\<open>ready\<close> of references to some of them. The list \<^verbatim>\<open>steps\<close> is the
  store of the model and a reference to a step is its position in that list; the function
  returns the updated store and the positions of the ready steps, in list order. The
  argument \<open>i\<close> is the position of the head of the remaining list.
\<close>

fun get_ready_from :: "nat \<Rightarrow> 'w DAGStep list \<Rightarrow> string set \<Rightarrow> string set
    \<Rightarrow> 'w DAGStep list \<times> nat list" where
  "get_ready_from i [] completed failed = ([], [])"
| "get_ready_from i (step # rest) completed failed =
     (case get_ready_from (Suc i) rest completed failed of (rest', ready) \<Rightarrow>
        if status step \<noteq> PENDING then (step # rest', ready)
        else if list_ex (\<lambda>dep. dep \<in> failed) (depends_on step)
          then (step\<lparr>status := SKIPPED, error := Some ''Dependency failed''\<rparr> # rest', ready)
        else if list_all (\<lambda>dep. dep \<in> completed) (depends_on step)
          then (step\<lparr>status := READY\<rparr> # rest', i # ready)
        else (step # rest', ready))"

definition get_ready_steps :: "'w DAGStep list \<Rightarrow> string set \<Rightarrow> string set
    \<Rightarrow> 'w DAGStep list \<times> nat list" where
  "get_ready_steps steps completed failed = get_ready_from 0 steps completed failed"

text \<open>
  \<^verbatim>\<open>execute_step\<close>, for an executor built with \<^verbatim>\<open>max_concurrency\<close> (a natural number:
  the constructor of \<^verbatim>\<open>asyncio.Semaphore\<close> rejects a negative value). The result is the
  step object after the call, how the coroutine ended, and the world.
  \<^item> \<^verbatim>\<open>async with self.semaphore\<close>: a semaphore built with 0 is never acquired, so the
    body does not start and the coroutine never completes. With a positive value a call
    that has the semaphore to itself acquires it at once (the model of the run below makes
    the calls one after the other).
  \<^item> The step is marked RUNNING and the action is awaited through
    \<^verbatim>\<open>run_in_executor\<close>, inside \<^verbatim>\<open>try\<close>.
  \<^item> When the await returns, the step is COMPLETED with the result, and is returned.
  \<^item> The handler \<^verbatim>\<open>except Exception\<close> makes the step FAILED with \<^verbatim>\<open>str(e)\<close>, and
    the step is returned; an exception that is not an \<^verbatim>\<open>Exception\<close> propagates and
    leaves the step RUNNING.
  \<^item> When the await never completes, the step stays RUNNING.
  The calls of \<^verbatim>\<open>print\<close> are left out.
\<close>

definition execute_step :: "nat \<Rightarrow> 'w DAGStep \<Rightarrow> 'w \<Rightarrow> 'w DAGStep \<times> unit exit \<times> 'w" where
  "execute_step max_concurrency step w =
     (if max_concurrency = 0 then (step, Hangs, w)
      else
        (let step1 = step\<lparr>status := RUNNING\<rparr> in
         case run_in_executor (action step1) w of
           (Returns r, w') \<Rightarrow> (step1\<lparr>result := r, status := COMPLETED\<rparr>, Returns (), w')
         | (Raises e, w') \<Rightarrow>
             if is_Exception e
             then (step1\<lparr>error := Some (str_exn e), status := FAILED\<rparr>, Returns (), w')
             else (step1, Raises e, w')
         | (Hangs, w') \<Rightarrow> (step1, Hangs, w')))"

text \<open>
  \<^verbatim>\<open>asyncio.gather\<close> over the ready steps. The tasks run concurrently in the source; the
  model runs them one after the other in list order, each one writing its own step back
  into the store. The gather raises the exception of a task that raises, and never
  completes when a task never completes; the model stops at that task.
\<close>

fun run_ready :: "nat \<Rightarrow> nat list \<Rightarrow> 'w DAGStep list \<Rightarrow> 'w
    \<Rightarrow> 'w DAGStep list \<times> unit exit \<times> 'w" where
  "run_ready max_concurrency [] steps w = (steps, Returns (), w)"
| "run_ready max_concurrency (i # ready) steps w =
     (case execute_step max_concurrency (steps ! i) w of
        (step', Returns u, w') \<Rightarrow> run_ready max_concurrency ready (steps[i := step']) w'
      | (step', Raises e, w') \<Rightarrow> (steps[i := step'], Raises e, w')
      | (step', Hangs, w') \<Rightarrow> (steps[i := step'], Hangs, w'))"

text \<open>The merge loop of \<^verbatim>\<open>execute\<close>: the ids of the finished steps go into the two sets.\<close>

fun record_results :: "nat list \<Rightarrow> 'w DAGStep list \<Rightarrow> string set \<times> string set
    \<Rightarrow> string set \<times> string set" where
  "record_results [] steps (completed, failed) = (completed, failed)"
| "record_results (i # ready) steps (completed, failed) =
     (if status (steps ! i) = COMPLETED
        then record_results ready steps (insert (step_id (steps ! i)) completed, failed)
      else if status (steps ! i) = FAILED
        then record_results ready steps (completed, insert (step_id (steps ! i)) failed)
      else record_results ready steps (completed, failed))"

text \<open>The seeding loop at the start of \<^verbatim>\<open>execute\<close>.\<close>

definition seed_ready :: "'w DAGStep list \<Rightarrow> 'w DAGStep list" where
  "seed_ready steps =
     map (\<lambda>step. if depends_on step = [] then step\<lparr>status := READY\<rparr> else step) steps"

text \<open>
  The \<^verbatim>\<open>while True\<close> loop of \<^verbatim>\<open>execute\<close>. It may run forever (when no step is ready
  and some step is RUNNING it sleeps and tries again; and a gather may never complete), so
  the loop is a partial function: \<open>None\<close> means that it does not return. \<open>Some (Inl e)\<close>
  means that the run raises \<open>e\<close>, and \<open>Some (Inr (steps, w))\<close> that it returns. The
  elapsed time and the speed-up estimate of the result are wall-clock readings and are left
  out; the result is the step list and the world.
\<close>

partial_function (option) execute_loop :: "nat \<Rightarrow> 'w DAGStep list \<Rightarrow> string set \<Rightarrow> string set
    \<Rightarrow> 'w \<Rightarrow> (exn + 'w DAGStep list \<times> 'w) option" where
  "execute_loop max_concurrency steps completed failed w =
     (case get_ready_steps steps completed failed of (steps1, ready) \<Rightarrow>
        if ready = [] then
          (if filter (\<lambda>s. status s = RUNNING) steps1 = [] then Some (Inr (steps1, w))
           else execute_loop max_concurrency steps1 completed failed w)
        else
          (case run_ready max_concurrency ready steps1 w of
             (steps2, Returns u, w') \<Rightarrow>
               (case record_results ready steps2 (completed, failed) of
                  (completed', failed') \<Rightarrow>
                    execute_loop max_concurrency steps2 completed' failed' w')
           | (steps2, Raises e, w') \<Rightarrow> Some (Inl e)
           | (steps2, Hangs, w') \<Rightarrow> None))"

definition execute :: "nat \<Rightarrow> 'w DAGStep list \<Rightarrow> 'w \<Rightarrow> (exn + 'w DAGStep list \<times> 'w) option" where
  "execute max_concurrency steps w = execute_loop max_concurrency (seed_ready steps) {} {} w"

section \<open>Error recovery (\<^verbatim>\<open>error_recovery.py\<close>)\<close>

subsection \<open>Python floats\<close>

text \<open>
  A Python float is an IEEE double: a finite number, an infinity or a NaN (the two zeros
  are not told apart). The largest finite double is \<open>dbl_max\<close>. Every arithmetic
  operation computes the exact result and rounds it to a double; the rounding function of
  the platform, \<open>round_double\<close>, rounds a real number to 53 bits of precision as if the
  exponent were unbounded, and a rounded result beyond \<open>dbl_max\<close> becomes an infinity.
  \<open>pow_double x n\<close> is the double that the C library computes for \<open>x\<close> to the power
  \<open>n\<close> before the range check (it need not be the correctly rounded power). Both
  functions are parameters of the model.
\<close>

datatype pyfloat = Finite real | PosInf | NegInf | NaN

definition dbl_max :: real where
  "dbl_max = 2 ^ 1024 - 2 ^ 971"

record double_arith =
  round_double :: "real \<Rightarrow> real"
  pow_double :: "real \<Rightarrow> nat \<Rightarrow> real"

definition to_float :: "real \<Rightarrow> pyfloat" where
  "to_float r = (if dbl_max < r then PosInf else if r < - dbl_max then NegInf else Finite r)"

fun f_neg :: "pyfloat \<Rightarrow> pyfloat" where
  "f_neg (Finite x) = Finite (- x)"
| "f_neg PosInf = NegInf"
| "f_neg NegInf = PosInf"
| "f_neg NaN = NaN"

fun f_add :: "double_arith \<Rightarrow> pyfloat \<Rightarrow> pyfloat \<Rightarrow> pyfloat" where
  "f_add ar (Finite x) (Finite y) = to_float (round_double ar (x + y))"
| "f_add ar NaN b = NaN"
| "f_add ar a NaN = NaN"
| "f_add ar PosInf NegInf = NaN"
| "f_add ar NegInf PosInf = NaN"
| "f_add ar PosInf b = PosInf"
| "f_add ar NegInf b = NegInf"
| "f_add ar a PosInf = PosInf"
| "f_add ar a NegInf = NegInf"

definition f_sub :: "double_arith \<Rightarrow> pyfloat \<Rightarrow> pyfloat \<Rightarrow> pyfloat" where
  "f_sub ar a b = f_add ar a (f_neg b)"

text \<open>The infinity with the sign of a real number that is not zero.\<close>

definition inf_of_sign :: "real \<Rightarrow> pyfloat" where
  "inf_of_sign s = (if 0 < s then PosInf else NegInf)"

fun f_mul :: "double_arith \<Rightarrow> pyfloat \<Rightarrow> pyfloat \<Rightarrow> pyfloat" where
  "f_mul ar (Finite x) (Finite y) = to_float (round_double ar (x * y))"
| "f_mul ar NaN b = NaN"
| "f_mul ar a NaN = NaN"
| "f_mul ar PosInf (Finite y) = (if y = 0 then NaN else inf_of_sign y)"
| "f_mul ar NegInf (Finite y) = (if y = 0 then NaN else inf_of_sign (- y))"
| "f_mul ar (Finite x) PosInf = (if x = 0 then NaN else inf_of_sign x)"
| "f_mul ar (Finite x) NegInf = (if x = 0 then NaN else inf_of_sign (- x))"
| "f_mul ar PosInf PosInf = PosInf"
| "f_mul ar NegInf NegInf = PosInf"
| "f_mul ar PosInf NegInf = NegInf"
| "f_mul ar NegInf PosInf = NegInf"

text \<open>The comparisons \<^verbatim>\<open>a < b\<close> and \<^verbatim>\<open>a >= b\<close>; both are false when an operand is
  a NaN.\<close>

fun f_less :: "pyfloat \<Rightarrow> pyfloat \<Rightarrow> bool" where
  "f_less NaN b = False"
| "f_less a NaN = False"
| "f_less (Finite x) (Finite y) = (x < y)"
| "f_less NegInf NegInf = False"
| "f_less NegInf b = True"
| "f_less a NegInf = False"
| "f_less PosInf b = False"
| "f_less a PosInf = True"

definition f_ge :: "pyfloat \<Rightarrow> pyfloat \<Rightarrow> bool" where
  "f_ge a b = (a \<noteq> NaN \<and> b \<noteq> NaN \<and> \<not> f_less a b)"

text \<open>The builtin \<^verbatim>\<open>min(a, b)\<close>: the second argument replaces the first when it is
  smaller.\<close>

definition f_min :: "pyfloat \<Rightarrow> pyfloat \<Rightarrow> pyfloat" where
  "f_min a b = (if f_less b a then b else a)"

text \<open>
  \<^verbatim>\<open>x ** n\<close> for a float \<open>x\<close> and an integer \<open>n \<ge> 0\<close>, as \<^verbatim>\<open>float_pow\<close> of
  CPython computes it: \<open>x ** 0\<close> is 1 for every \<open>x\<close>; a NaN, an infinity, 0 and 1 are
  handled without the C library; otherwise the C library is called and a result out of the
  range of the doubles raises \<^verbatim>\<open>OverflowError\<close>, whose message is
  \<^verbatim>\<open>(34, 'Numerical result out of range')\<close>.
\<close>

definition overflow_error :: exn where
  "overflow_error =
     OtherException (''(34, '' @ [CHR 0x27] @ ''Numerical result out of range'' @ [CHR 0x27]
       @ '')'')"

definition f_pow :: "double_arith \<Rightarrow> pyfloat \<Rightarrow> nat \<Rightarrow> exn + pyfloat" where
  "f_pow ar x n =
     (if n = 0 then Inr (Finite 1)
      else
        (case x of
           NaN \<Rightarrow> Inr NaN
         | PosInf \<Rightarrow> Inr PosInf
         | NegInf \<Rightarrow> Inr (if odd n then NegInf else PosInf)
         | Finite v \<Rightarrow>
             if v = 0 then Inr (Finite 0)
             else if v = 1 then Inr (Finite 1)
             else if dbl_max < \<bar>pow_double ar v n\<bar> then Inl overflow_error
             else Inr (Finite (pow_double ar v n))))"

text \<open>\<^verbatim>\<open>random.uniform(a, b)\<close> is \<^verbatim>\<open>a + (b - a) * self.random()\<close>; \<open>u\<close> is the
  draw of \<^verbatim>\<open>random()\<close>.\<close>

definition uniform :: "double_arith \<Rightarrow> pyfloat \<Rightarrow> pyfloat \<Rightarrow> pyfloat \<Rightarrow> pyfloat" where
  "uniform ar a b u = f_add ar a (f_mul ar (f_sub ar b a) u)"

subsection \<open>Values, callables and the runtime\<close>

text \<open>
  What an operation can return: a string, \<^verbatim>\<open>None\<close>, or a coroutine object. A coroutine
  object is what a call of an \<^verbatim>\<open>async def\<close> function returns; its body has not run and
  runs only when the object is awaited.
\<close>

datatype val = Str string | NoneVal | CoroutineObject

text \<open>
  An operation is a zero-argument Python callable. \<open>Sync f\<close> is a plain function (or a
  lambda): calling it runs \<open>f\<close> on the world. \<open>Async f\<close> is a coroutine function, the
  only kind for which \<^verbatim>\<open>asyncio.iscoroutinefunction\<close> is true: calling it gives a
  coroutine object and awaiting that object runs the body \<open>f\<close>.
\<close>

datatype 'w callable =
    Sync "'w \<Rightarrow> (exn + val) \<times> 'w"
  | Async "'w \<Rightarrow> (exn + val) \<times> 'w"

text \<open>
  The platform and the library functions the module calls, as parameters: the double
  arithmetic; \<^verbatim>\<open>time.time()\<close> reads the clock of the world; \<^verbatim>\<open>random.random()\<close>
  draws a float of \<open>[0, 1)\<close> and changes the generator; \<^verbatim>\<open>await asyncio.sleep(d)\<close>
  lets the world move on for \<open>d\<close> seconds (it returns, raises, or, for a NaN, never
  completes); and \<^verbatim>\<open>await asyncio.wait_for(coro, timeout)\<close> awaits a coroutine under a
  timeout, raising \<^verbatim>\<open>asyncio.TimeoutError\<close> (an \<open>OtherException\<close> with an empty
  message) when it is exceeded.
\<close>

record 'w runtime =
  double_ops :: double_arith
  time_now :: "'w \<Rightarrow> pyfloat"
  draw :: "'w \<Rightarrow> pyfloat \<times> 'w"
  sleep :: "pyfloat \<Rightarrow> 'w \<Rightarrow> unit exit \<times> 'w"
  wait_for :: "pyfloat \<Rightarrow> ('w \<Rightarrow> (exn + val) \<times> 'w) \<Rightarrow> 'w \<Rightarrow> (exn + val) \<times> 'w"

text \<open>Python integers are modelled as \<open>int\<close>. The default of \<^verbatim>\<open>jitter_factor\<close> is the
  double written \<^verbatim>\<open>0.1\<close>, which is \<open>3602879701896397 / 2 ^ 55\<close>.\<close>

record ResilienceConfig =
  max_retries :: int
  base_delay :: pyfloat
  max_delay :: pyfloat
  exponential_base :: pyfloat
  jitter_factor :: pyfloat
  max_fallback_depth :: int
  fallback_timeout :: pyfloat
  failure_threshold :: int
  recovery_timeout :: pyfloat
  half_open_max_calls :: int

definition default_config :: ResilienceConfig where
  "default_config =
     \<lparr>max_retries = 3, base_delay = Finite 1, max_delay = Finite 30,
      exponential_base = Finite 2, jitter_factor = Finite (3602879701896397 / 2 ^ 55),
      max_fallback_depth = 4, fallback_timeout = Finite 60,
      failure_threshold = 5, recovery_timeout = Finite 30, half_open_max_calls = 3\<rparr>"

subsection \<open>\<^verbatim>\<open>RetryStrategy\<close>\<close>

text \<open>
  \<^verbatim>\<open>calculate_delay\<close>. \<open>backoff\<close> is the local variable \<^verbatim>\<open>delay\<close>: the power is
  computed first and may raise \<^verbatim>\<open>OverflowError\<close>, then the product, then the minimum.
  \<open>jitter\<close> is the local variable \<^verbatim>\<open>jitter\<close> for the draw \<open>u\<close>. The generator is
  drawn from only when the power has not raised.
\<close>

definition backoff :: "double_arith \<Rightarrow> ResilienceConfig \<Rightarrow> nat \<Rightarrow> exn + pyfloat" where
  "backoff ar cfg attempt =
     (case f_pow ar (exponential_base cfg) attempt of
        Inl e \<Rightarrow> Inl e
      | Inr p \<Rightarrow> Inr (f_min (f_mul ar (base_delay cfg) p) (max_delay cfg)))"

definition jitter :: "double_arith \<Rightarrow> ResilienceConfig \<Rightarrow> pyfloat \<Rightarrow> pyfloat \<Rightarrow> pyfloat" where
  "jitter ar cfg delay u = uniform ar (Finite 0) (f_mul ar delay (jitter_factor cfg)) u"

definition calculate_delay :: "ResilienceConfig \<Rightarrow> 'w runtime \<Rightarrow> nat \<Rightarrow> 'w
    \<Rightarrow> (exn + pyfloat) \<times> 'w" where
  "calculate_delay cfg rt attempt w =
     (case backoff (double_ops rt) cfg attempt of
        Inl e \<Rightarrow> (Inl e, w)
      | Inr delay \<Rightarrow>
          (case draw rt w of (u, w1) \<Rightarrow>
             (Inr (f_add (double_ops rt) delay (jitter (double_ops rt) cfg delay u)), w1)))"

text \<open>
  \<^verbatim>\<open>_execute\<close>: a coroutine function is called and awaited; anything else is called in
  the executor and what it returns is the result as it is (a coroutine object, if the
  callable returns one, is not awaited).
\<close>

fun run_execute :: "'w callable \<Rightarrow> 'w \<Rightarrow> val exit \<times> 'w" where
  "run_execute (Async f) w =
     (case await_coroutine f w of
        (Inr v, w') \<Rightarrow> (Returns v, w')
      | (Inl e, w') \<Rightarrow> (Raises e, w'))"
| "run_execute (Sync f) w = run_in_executor f w"

text \<open>
  The lines of the handler of \<^verbatim>\<open>TransientError\<close> between two attempts: the delay is
  computed, \<^verbatim>\<open>on_retry(attempt + 1, e)\<close> is called when a callback was given, and the
  coroutine sleeps. The callback is a plain callable that returns or raises. An exception
  of the delay computation or of the callback, and an exception or a sleep without end of
  \<^verbatim>\<open>asyncio.sleep\<close>, end the pause there.
\<close>

definition before_retry :: "ResilienceConfig \<Rightarrow> 'w runtime
    \<Rightarrow> (int \<Rightarrow> exn \<Rightarrow> 'w \<Rightarrow> (exn + unit) \<times> 'w) option \<Rightarrow> nat \<Rightarrow> exn \<Rightarrow> 'w
    \<Rightarrow> unit exit \<times> 'w" where
  "before_retry cfg rt on_retry attempt e w =
     (case calculate_delay cfg rt attempt w of
        (Inl e1, w1) \<Rightarrow> (Raises e1, w1)
      | (Inr delay, w1) \<Rightarrow>
          (case (case on_retry of
                   None \<Rightarrow> (Inr (), w1)
                 | Some f \<Rightarrow> f (int attempt + 1) e w1) of
             (Inl e2, w2) \<Rightarrow> (Raises e2, w2)
           | (Inr u, w2) \<Rightarrow> sleep rt delay w2))"

text \<open>
  The \<^verbatim>\<open>for attempt in range(max_retries + 1)\<close> loop. \<open>n\<close> is the number of
  iterations still to come, \<open>attempt\<close> the loop variable and \<open>last_exception\<close> the
  variable of that name. The handler of \<^verbatim>\<open>TransientError\<close> goes on with the loop
  unless the pause raises or never completes; what the pause raises leaves the coroutine
  from inside the handler. The handler of \<^verbatim>\<open>(PermanentError, CatastrophicError)\<close>
  raises again, and no handler matches the other classes, which leave the function as
  well.
\<close>

fun retry_loop :: "ResilienceConfig \<Rightarrow> 'w runtime
    \<Rightarrow> (int \<Rightarrow> exn \<Rightarrow> 'w \<Rightarrow> (exn + unit) \<times> 'w) option
    \<Rightarrow> 'w callable \<Rightarrow> nat \<Rightarrow> nat \<Rightarrow> exn option \<Rightarrow> 'w \<Rightarrow> val exit \<times> 'w" where
  "retry_loop cfg rt on_retry operation 0 attempt last_exception w =
     (case last_exception of
        Some e \<Rightarrow> (Raises e, w)
      | None \<Rightarrow> (Raises (OtherException ''All retries exhausted''), w))"
| "retry_loop cfg rt on_retry operation (Suc n) attempt last_exception w =
     (case run_execute operation w of
        (Returns v, w1) \<Rightarrow> (Returns v, w1)
      | (Hangs, w1) \<Rightarrow> (Hangs, w1)
      | (Raises e, w1) \<Rightarrow>
          (case e of
             TransientError m \<Rightarrow>
               if int attempt < max_retries cfg
               then
                 (case before_retry cfg rt on_retry attempt e w1 of
                    (Returns u, w2) \<Rightarrow>
                      retry_loop cfg rt on_retry operation n (Suc attempt) (Some e) w2
                  | (Raises e', w2) \<Rightarrow> (Raises (leave_coroutine e'), w2)
                  | (Hangs, w2) \<Rightarrow> (Hangs, w2))
               else retry_loop cfg rt on_retry operation n (Suc attempt) (Some e) w1
           | _ \<Rightarrow> (Raises e, w1)))"

definition execute_with_retry :: "ResilienceConfig \<Rightarrow> 'w runtime
    \<Rightarrow> (int \<Rightarrow> exn \<Rightarrow> 'w \<Rightarrow> (exn + unit) \<times> 'w) option \<Rightarrow> 'w callable \<Rightarrow> 'w
    \<Rightarrow> val exit \<times> 'w" where
  "execute_with_retry cfg rt on_retry operation w =
     retry_loop cfg rt on_retry operation (nat (max_retries cfg + 1)) 0 None w"

subsection \<open>\<^verbatim>\<open>FallbackChain\<close>\<close>

record FallbackResult =
  success :: bool
  fb_result :: val
  fallback_level :: nat
  fb_error :: "exn option"

text \<open>The Python slice \<^verbatim>\<open>xs[:stop]\<close>: a negative \<open>stop\<close> counts from the end.\<close>

definition slice_to :: "int \<Rightarrow> 'a list \<Rightarrow> 'a list" where
  "slice_to stop xs =
     (if stop < 0 then take (nat (int (length xs) + stop)) xs else take (nat stop) xs)"

text \<open>
  One attempt of the chain: a coroutine function is awaited under
  \<^verbatim>\<open>asyncio.wait_for\<close> with \<^verbatim>\<open>fallback_timeout\<close>, anything else is called directly.
\<close>

fun chain_attempt :: "ResilienceConfig \<Rightarrow> 'w runtime \<Rightarrow> 'w callable \<Rightarrow> 'w
    \<Rightarrow> (exn + val) \<times> 'w" where
  "chain_attempt cfg rt (Async f) w = wait_for rt (fallback_timeout cfg) (await_coroutine f) w"
| "chain_attempt cfg rt (Sync f) w = f w"

text \<open>
  The loop over \<^verbatim>\<open>enumerate(operations)\<close>; \<open>n_ops\<close> is \<^verbatim>\<open>len(operations)\<close>. A
  CatastrophicError is raised again, an exception that is not an \<^verbatim>\<open>Exception\<close> is not
  caught, every other exception is caught, and then the loop goes on unless the level is
  the last one. The \<^verbatim>\<open>return\<close> after the loop is the first equation.
\<close>

fun chain_loop :: "ResilienceConfig \<Rightarrow> 'w runtime \<Rightarrow> nat \<Rightarrow> nat \<Rightarrow> 'w callable list \<Rightarrow> 'w
    \<Rightarrow> (exn + FallbackResult) \<times> 'w" where
  "chain_loop cfg rt n_ops level [] w =
     (Inr \<lparr>success = False, fb_result = NoneVal, fallback_level = 0,
           fb_error = Some (OtherException ''No operations available'')\<rparr>, w)"
| "chain_loop cfg rt n_ops level (operation # rest) w =
     (case chain_attempt cfg rt operation w of
        (Inr v, w1) \<Rightarrow>
          (Inr \<lparr>success = True, fb_result = v, fallback_level = level, fb_error = None\<rparr>, w1)
      | (Inl e, w1) \<Rightarrow>
          (case e of
             CatastrophicError m \<Rightarrow> (Inl e, w1)
           | BaseExceptionOnly m \<Rightarrow> (Inl e, w1)
           | _ \<Rightarrow>
               if int level = int n_ops - 1
               then (Inr \<lparr>success = False, fb_result = NoneVal, fallback_level = level,
                          fb_error = Some e\<rparr>, w1)
               else chain_loop cfg rt n_ops (Suc level) rest w1))"

text \<open>\<^verbatim>\<open>FallbackChain.execute\<close>, for a chain whose list \<^verbatim>\<open>self.fallbacks\<close> is
  \<open>fallbacks\<close>.\<close>

definition chain_operations :: "ResilienceConfig \<Rightarrow> 'w callable list \<Rightarrow> 'w callable
    \<Rightarrow> 'w callable list" where
  "chain_operations cfg fallbacks primary =
     primary # slice_to (max_fallback_depth cfg - 1) fallbacks"

definition chain_execute :: "ResilienceConfig \<Rightarrow> 'w runtime \<Rightarrow> 'w callable list
    \<Rightarrow> 'w callable \<Rightarrow> 'w \<Rightarrow> (exn + FallbackResult) \<times> 'w" where
  "chain_execute cfg rt fallbacks primary w =
     (let operations = chain_operations cfg fallbacks primary
      in chain_loop cfg rt (length operations) 0 operations w)"

subsection \<open>\<^verbatim>\<open>CircuitBreaker\<close>\<close>

datatype CircuitState = CLOSED | OPEN | HALF_OPEN

record CircuitBreaker =
  cb_name :: string
  state :: CircuitState
  failure_count :: int
  success_count :: int
  last_failure_time :: "pyfloat option"
  half_open_calls :: int

definition new_circuit_breaker :: "string \<Rightarrow> CircuitBreaker" where
  "new_circuit_breaker n =
     \<lparr>cb_name = n, state = CLOSED, failure_count = 0, success_count = 0,
      last_failure_time = None, half_open_calls = 0\<rparr>"

text \<open>\<^verbatim>\<open>_should_attempt_recovery\<close>; \<open>now\<close> is the reading of \<^verbatim>\<open>time.time()\<close>. The
  difference of the two readings is a double subtraction.\<close>

definition should_attempt_recovery :: "ResilienceConfig \<Rightarrow> double_arith \<Rightarrow> pyfloat
    \<Rightarrow> CircuitBreaker \<Rightarrow> bool" where
  "should_attempt_recovery cfg ar now cb =
     (case last_failure_time cb of
        None \<Rightarrow> True
      | Some t \<Rightarrow> f_ge (f_sub ar now t) (recovery_timeout cfg))"

text \<open>The property \<^verbatim>\<open>is_open\<close> changes the breaker: it returns its value and the
  breaker after the read.\<close>

definition is_open :: "ResilienceConfig \<Rightarrow> double_arith \<Rightarrow> pyfloat \<Rightarrow> CircuitBreaker
    \<Rightarrow> bool \<times> CircuitBreaker" where
  "is_open cfg ar now cb =
     (if state cb = OPEN then
        (if should_attempt_recovery cfg ar now cb
         then (False, cb\<lparr>state := HALF_OPEN, half_open_calls := 0\<rparr>)
         else (True, cb))
      else (False, cb))"

definition record_success :: "ResilienceConfig \<Rightarrow> CircuitBreaker \<Rightarrow> CircuitBreaker" where
  "record_success cfg cb =
     (let cb1 = cb\<lparr>failure_count := 0\<rparr> in
      if state cb1 = HALF_OPEN then
        (let cb2 = cb1\<lparr>success_count := success_count cb1 + 1\<rparr> in
         if success_count cb2 \<ge> half_open_max_calls cfg
         then cb2\<lparr>state := CLOSED, success_count := 0\<rparr>
         else cb2)
      else cb1)"

definition record_failure :: "ResilienceConfig \<Rightarrow> pyfloat \<Rightarrow> CircuitBreaker \<Rightarrow> CircuitBreaker" where
  "record_failure cfg now cb =
     (let cb1 = cb\<lparr>failure_count := failure_count cb + 1, last_failure_time := Some now\<rparr> in
      if state cb1 = HALF_OPEN then cb1\<lparr>state := OPEN\<rparr>
      else if failure_count cb1 \<ge> failure_threshold cfg then cb1\<lparr>state := OPEN\<rparr>
      else cb1)"

text \<open>
  \<^verbatim>\<open>CircuitBreaker.execute\<close>. The state is the breaker and the world. The method has
  three parts. The test \<^verbatim>\<open>if self.is_open\<close> runs when the call starts. Then the
  operation runs: a coroutine function is awaited, and while it is suspended other calls
  of \<^verbatim>\<open>execute\<close> on the same breaker can start; anything else is called directly. When
  the operation has ended, \<open>circuit_settle\<close> records the outcome at the time \<open>now\<close> of
  that moment: a returned value by \<^verbatim>\<open>record_success\<close>, an exception that the handler
  \<^verbatim>\<open>except Exception\<close> matches by \<^verbatim>\<open>record_failure\<close>, and any other exception not at
  all. The exception is raised again and leaves the coroutine.
\<close>

fun call_operation :: "'w callable \<Rightarrow> 'w \<Rightarrow> (exn + val) \<times> 'w" where
  "call_operation (Async f) w = await_coroutine f w"
| "call_operation (Sync f) w = f w"

definition circuit_settle :: "ResilienceConfig \<Rightarrow> pyfloat \<Rightarrow> exn + val \<Rightarrow> CircuitBreaker
    \<Rightarrow> CircuitBreaker" where
  "circuit_settle cfg now out cb =
     (case out of
        Inr v \<Rightarrow> record_success cfg cb
      | Inl e \<Rightarrow> if is_Exception e then record_failure cfg now cb else cb)"

definition circuit_execute :: "ResilienceConfig \<Rightarrow> 'w runtime \<Rightarrow> 'w callable
    \<Rightarrow> CircuitBreaker \<times> 'w \<Rightarrow> (exn + val) \<times> (CircuitBreaker \<times> 'w)" where
  "circuit_execute cfg rt operation s =
     (case s of (cb, w) \<Rightarrow>
        case is_open cfg (double_ops rt) (time_now rt w) cb of (opened, cb1) \<Rightarrow>
          if opened
          then (Inl (TransientError (''Circuit '' @ cb_name cb1 @ '' is open'')), (cb1, w))
          else
            (case call_operation operation w of
               (Inr v, w1) \<Rightarrow> (Inr v, (circuit_settle cfg (time_now rt w1) (Inr v) cb1, w1))
             | (Inl e, w1) \<Rightarrow>
                 (Inl (leave_coroutine e),
                  (circuit_settle cfg (time_now rt w1) (Inl e) cb1, w1))))"

subsection \<open>\<^verbatim>\<open>ResilientExecutor\<close>\<close>

text \<open>\<^verbatim>\<open>get_circuit_breaker\<close> on the dictionary \<^verbatim>\<open>circuit_breakers\<close>.\<close>

definition get_circuit_breaker :: "string \<Rightarrow> (string \<rightharpoonup> CircuitBreaker)
    \<Rightarrow> CircuitBreaker \<times> (string \<rightharpoonup> CircuitBreaker)" where
  "get_circuit_breaker n breakers =
     (case breakers n of
        None \<Rightarrow> (new_circuit_breaker n, breakers(n \<mapsto> new_circuit_breaker n))
      | Some cb \<Rightarrow> (cb, breakers))"

text \<open>
  The operation handed to \<^verbatim>\<open>execute_with_retry\<close> is
  \<^verbatim>\<open>lambda: circuit.execute(operation)\<close>. A lambda is not a coroutine function, so
  \<^verbatim>\<open>_execute\<close> calls it in the executor; the call of the \<^verbatim>\<open>async def\<close> method
  \<^verbatim>\<open>circuit.execute\<close> inside it only makes a coroutine object, which the lambda returns.
  The body of \<^verbatim>\<open>circuit.execute\<close> does not run: the world and the breaker stay as they
  are.
\<close>

definition circuit_execute_lambda :: "'w callable" where
  "circuit_execute_lambda = Sync (\<lambda>w. (Inr CoroutineObject, w))"

text \<open>The operation \<^verbatim>\<open>lambda: None\<close>.\<close>

definition none_lambda :: "'w callable" where
  "none_lambda = Sync (\<lambda>w. (Inr NoneVal, w))"

text \<open>
  \<^verbatim>\<open>ResilientExecutor.execute\<close>. The state is the dictionary of breakers and the world.
  \<open>fallbacks\<close> is \<^verbatim>\<open>None\<close> or a list; \<^verbatim>\<open>if fallbacks\<close> holds for a list that is not
  empty. A chain is built from all the fallbacks with \<^verbatim>\<open>add_fallback\<close>. The handler
  \<^verbatim>\<open>except Exception\<close> of the retry does not match an exception that is not an
  \<^verbatim>\<open>Exception\<close>; in the handler, an exception of the chain replaces the one being
  handled, and the final \<^verbatim>\<open>raise\<close> raises the handled one again.
\<close>

definition resilient_execute :: "ResilienceConfig \<Rightarrow> 'w runtime \<Rightarrow> 'w callable \<Rightarrow> string
    \<Rightarrow> 'w callable list option \<Rightarrow> (string \<rightharpoonup> CircuitBreaker) \<times> 'w
    \<Rightarrow> val exit \<times> ((string \<rightharpoonup> CircuitBreaker) \<times> 'w)" where
  "resilient_execute cfg rt operation circuit_name fallbacks s =
     (case s of (breakers, w) \<Rightarrow>
      case get_circuit_breaker circuit_name breakers of (circuit, breakers1) \<Rightarrow>
      case is_open cfg (double_ops rt) (time_now rt w) circuit of (opened, circuit1) \<Rightarrow>
      let breakers2 = breakers1(circuit_name \<mapsto> circuit1);
          no_fallbacks = (case fallbacks of None \<Rightarrow> True | Some fbs \<Rightarrow> fbs = [])
      in
        if opened then
          (if no_fallbacks
           then (Raises (TransientError
                   (''Circuit '' @ circuit_name @ '' is open and no fallbacks'')),
                 (breakers2, w))
           else
             (case chain_execute cfg rt (the fallbacks) none_lambda w of
                (Inl e, w1) \<Rightarrow> (Raises e, (breakers2, w1))
              | (Inr r, w1) \<Rightarrow>
                  if success r then (Returns (fb_result r), (breakers2, w1))
                  else (Raises (TransientError
                          (''Circuit '' @ circuit_name @ '' is open and no fallbacks'')),
                        (breakers2, w1))))
        else
          (case execute_with_retry cfg rt None circuit_execute_lambda w of
             (Returns v, w1) \<Rightarrow> (Returns v, (breakers2, w1))
           | (Hangs, w1) \<Rightarrow> (Hangs, (breakers2, w1))
           | (Raises e, w1) \<Rightarrow>
               if no_fallbacks \<or> \<not> is_Exception e then (Raises e, (breakers2, w1))
               else
                 (case chain_execute cfg rt (the fallbacks) (hd (the fallbacks)) w1 of
                    (Inl e', w2) \<Rightarrow> (Raises e', (breakers2, w2))
                  | (Inr r, w2) \<Rightarrow>
                      if success r then (Returns (fb_result r), (breakers2, w2))
                      else (Raises e, (breakers2, w2)))))"

section \<open>Inputs and notions used to state the properties\<close>

text \<open>
  The constructor \<^verbatim>\<open>DAGStep(id=..., name=..., action=..., depends_on=...)\<close> with the
  defaults of the dataclass for the other fields.
\<close>

definition new_step :: "string \<Rightarrow> string \<Rightarrow> ('w \<Rightarrow> (exn + string) \<times> 'w) \<Rightarrow> string list
    \<Rightarrow> 'w DAGStep" where
  "new_step i n a deps =
     \<lparr>step_id = i, name = n, action = a, depends_on = deps,
      status = PENDING, result = '''', error = None\<rparr>"

text \<open>
  \<^verbatim>\<open>simulate_task\<close> and \<^verbatim>\<open>create_sample_dag\<close>, the demo input of the source. The world
  of the demo is the number of tasks that have run: every call of \<^verbatim>\<open>simulate_task\<close>
  counts one up. The display names of the source are not ASCII; the ids stand for them.
\<close>

definition simulate_task :: "string \<Rightarrow> nat \<Rightarrow> (exn + string) \<times> nat" where
  "simulate_task n calls = (Inr (''Completed: '' @ n), Suc calls)"

definition create_sample_dag :: "nat DAGStep list" where
  "create_sample_dag =
     [new_step ''fetch_data'' ''fetch_data'' (simulate_task ''fetch_data'') [],
      new_step ''process_a'' ''process_a'' (simulate_task ''process_a'') [''fetch_data''],
      new_step ''process_b'' ''process_b'' (simulate_task ''process_b'') [''fetch_data''],
      new_step ''process_c'' ''process_c'' (simulate_task ''process_c'') [''fetch_data''],
      new_step ''merge_results'' ''merge_results'' (simulate_task ''merge_results'')
        [''process_a'', ''process_b'', ''process_c''],
      new_step ''generate_report'' ''generate_report'' (simulate_task ''generate_report'')
        [''merge_results'']]"


subsection \<open>Notions about step lists\<close>

text \<open>What one iteration of the loop of \<^verbatim>\<open>get_ready_steps\<close> does to a step, and whether
  the iteration appends the step to \<^verbatim>\<open>ready\<close>.\<close>

definition visit :: "string set \<Rightarrow> string set \<Rightarrow> 'w DAGStep \<Rightarrow> 'w DAGStep" where
  "visit completed failed step =
     (if status step \<noteq> PENDING then step
      else if list_ex (\<lambda>dep. dep \<in> failed) (depends_on step)
        then step\<lparr>status := SKIPPED, error := Some ''Dependency failed''\<rparr>
      else if list_all (\<lambda>dep. dep \<in> completed) (depends_on step)
        then step\<lparr>status := READY\<rparr>
      else step)"

definition is_ready :: "string set \<Rightarrow> string set \<Rightarrow> 'w DAGStep \<Rightarrow> bool" where
  "is_ready completed failed step =
     (status step = PENDING \<and> \<not> list_ex (\<lambda>dep. dep \<in> failed) (depends_on step)
        \<and> list_all (\<lambda>dep. dep \<in> completed) (depends_on step))"





subsection \<open>Notions about operations\<close>

text \<open>
  The body of an operation is what runs when the operation is called (and, for a coroutine
  function, awaited). What the caller of \<^verbatim>\<open>_execute\<close> gets for an outcome of the body
  is \<open>delivered\<close>: a returned value is returned and a raised exception is raised, except
  for a \<^verbatim>\<open>StopIteration\<close>, which a coroutine function turns into a
  \<^verbatim>\<open>RuntimeError\<close> and which, raised by a plain callable in the executor, never arrives.
\<close>

fun body :: "'w callable \<Rightarrow> 'w \<Rightarrow> (exn + val) \<times> 'w" where
  "body (Sync f) = f"
| "body (Async f) = f"

fun delivered :: "'w callable \<Rightarrow> exn + val \<Rightarrow> val exit" where
  "delivered operation (Inr v) = Returns v"
| "delivered (Sync f) (Inl (StopIteration m)) = Hangs"
| "delivered (Async f) (Inl (StopIteration m)) =
     Raises (OtherException ''coroutine raised StopIteration'')"
| "delivered operation (Inl e) = Raises e"

text \<open>
  An outcome is transient when it is a raised \<^verbatim>\<open>TransientError\<close>. To count the calls
  of an operation, the world is observed through a call counter: an operation follows a
  script when the call number \<open>k\<close> of its body (counted from 0 by the counter) has the
  outcome \<open>script k\<close> and counts one up; the runtime and the callback keep the count when
  drawing, sleeping and calling back do not change the counter. The pauses before \<open>k\<close>
  complete when, after each of the attempts \<open>0, ..., k - 1\<close>, the lines between two
  attempts run to their end: the delay computation does not overflow, and the callback and
  the sleep return.
\<close>

fun is_transient :: "exn + val \<Rightarrow> bool" where
  "is_transient (Inl (TransientError m)) = True"
| "is_transient out = False"

definition follows_script :: "('w \<Rightarrow> nat) \<Rightarrow> 'w callable \<Rightarrow> (nat \<Rightarrow> exn + val) \<Rightarrow> bool" where
  "follows_script calls operation script =
     (\<forall>w. fst (body operation w) = script (calls w)
         \<and> calls (snd (body operation w)) = Suc (calls w))"

definition keeps_count :: "('w \<Rightarrow> nat) \<Rightarrow> 'w runtime
    \<Rightarrow> (int \<Rightarrow> exn \<Rightarrow> 'w \<Rightarrow> (exn + unit) \<times> 'w) option \<Rightarrow> bool" where
  "keeps_count calls rt on_retry =
     ((\<forall>w. calls (snd (draw rt w)) = calls w)
      \<and> (\<forall>d w. calls (snd (sleep rt d w)) = calls w)
      \<and> (case on_retry of None \<Rightarrow> True | Some f \<Rightarrow> \<forall>a e w. calls (snd (f a e w)) = calls w))"

definition pauses_complete :: "ResilienceConfig \<Rightarrow> 'w runtime
    \<Rightarrow> (int \<Rightarrow> exn \<Rightarrow> 'w \<Rightarrow> (exn + unit) \<times> 'w) option \<Rightarrow> nat \<Rightarrow> bool" where
  "pauses_complete cfg rt on_retry k =
     (\<forall>i<k. \<forall>e w. fst (before_retry cfg rt on_retry i e w) = Returns ())"

text \<open>
  Concrete operations and runtimes. \<open>scripted\<close> is the plain callable on the world of the
  bare counter that plays a list of outcomes and then a fixed one, and \<open>counting\<close> is the
  same body on a world that pairs the counter with something else. \<open>exact_arith\<close> is the
  arithmetic that does not round: it agrees with the double arithmetic wherever the exact
  results are doubles, which is the case for the numbers of the examples below (small
  integers and dyadic fractions). \<open>still_runtime\<close> is a runtime in which nothing happens:
  the clock stands at 0, every draw is 0, a sleep returns at once and no timeout expires.
  \<open>trace_runtime\<close> draws \<open>1 / 2\<close> and writes every sleep into a trace that the world
  carries next to the counter, and \<open>trace_callback\<close> writes the calls of the callback
  into it. \<open>clock_runtime\<close> is a runtime whose world is the clock itself: a sleep moves
  the clock on, and an await under \<^verbatim>\<open>wait_for\<close> that takes longer than the timeout
  raises \<^verbatim>\<open>TimeoutError\<close> when the timeout has passed.
\<close>

definition scripted :: "(exn + val) list \<Rightarrow> (exn + val) \<Rightarrow> nat callable" where
  "scripted outcomes later =
     Sync (\<lambda>n. (if n < length outcomes then outcomes ! n else later, Suc n))"


definition exact_arith :: double_arith where
  "exact_arith = \<lparr>round_double = (\<lambda>x. x), pow_double = (\<lambda>x n. x ^ n)\<rparr>"

definition still_runtime :: "'w runtime" where
  "still_runtime =
     \<lparr>double_ops = exact_arith, time_now = (\<lambda>w. Finite 0), draw = (\<lambda>w. (Finite 0, w)),
      sleep = (\<lambda>d w. (Returns (), w)), wait_for = (\<lambda>t f w. f w)\<rparr>"




definition clock_runtime :: "real runtime" where
  "clock_runtime =
     \<lparr>double_ops = exact_arith, time_now = (\<lambda>t. Finite t), draw = (\<lambda>t. (Finite 0, t)),
      sleep = (\<lambda>d t. (Returns (), (case d of Finite x \<Rightarrow> t + x | _ \<Rightarrow> t))),
      wait_for = (\<lambda>timeout f t.
        case f t of (out, t') \<Rightarrow>
          if f_less timeout (Finite (t' - t))
          then (Inl (OtherException ''''), (case timeout of Finite d \<Rightarrow> t + d | _ \<Rightarrow> t'))
          else (out, t'))\<rparr>"

text \<open>
  For the fallback chain. What the chain is to do with one operation is \<open>timed_attempt\<close>:
  a coroutine function is awaited under \<^verbatim>\<open>wait_for\<close> with \<open>fallback_timeout\<close>, whose
  timeout error is then the outcome of the attempt, and any other callable is called
  without a time bound. An outcome is a soft failure when it is a raised exception that the
  handler \<^verbatim>\<open>except Exception\<close> of the chain keeps: an \<^verbatim>\<open>Exception\<close> other than
  \<^verbatim>\<open>CatastrophicError\<close>. \<open>after_attempts\<close> is the world after one attempt on each
  operation of a list, in order; and \<open>attempt_outcome\<close> is the outcome of the attempt on
  operation number \<open>k\<close> of a list when the operations before it have been attempted.
\<close>

definition timed_attempt :: "ResilienceConfig \<Rightarrow> 'w runtime \<Rightarrow> 'w callable \<Rightarrow> 'w
    \<Rightarrow> (exn + val) \<times> 'w" where
  "timed_attempt cfg rt operation w =
     (case operation of
        Async f \<Rightarrow> wait_for rt (fallback_timeout cfg) (await_coroutine f) w
      | Sync f \<Rightarrow> f w)"

fun soft_failure :: "exn + val \<Rightarrow> bool" where
  "soft_failure (Inl (CatastrophicError m)) = False"
| "soft_failure (Inl (BaseExceptionOnly m)) = False"
| "soft_failure (Inl e) = True"
| "soft_failure (Inr v) = False"

fun after_attempts :: "ResilienceConfig \<Rightarrow> 'w runtime \<Rightarrow> 'w callable list \<Rightarrow> 'w \<Rightarrow> 'w" where
  "after_attempts cfg rt [] w = w"
| "after_attempts cfg rt (operation # rest) w =
     after_attempts cfg rt rest (snd (timed_attempt cfg rt operation w))"

definition attempt_outcome :: "ResilienceConfig \<Rightarrow> 'w runtime \<Rightarrow> 'w callable list \<Rightarrow> nat \<Rightarrow> 'w
    \<Rightarrow> exn + val" where
  "attempt_outcome cfg rt ops k w =
     fst (timed_attempt cfg rt (ops ! k) (after_attempts cfg rt (take k ops) w))"

text \<open>
  For the circuit breaker: \<open>circuit_calls\<close> makes one call of
  \<^verbatim>\<open>CircuitBreaker.execute\<close> after the other, one for each operation of a list.
  \<open>overlapping_calls\<close> follows calls that overlap: \<open>Enter now\<close> is the start of a call
  at clock reading \<open>now\<close>, which goes through the test and whose operation, a coroutine
  function, is then suspended; \<open>Leave now out\<close> is the end, at clock reading \<open>now\<close>,
  of the operation of a call that is under way, with outcome \<open>out\<close>. The state is the
  breaker and the number of operations that have been started.
  \<open>demo_config\<close>, \<open>always_fail\<close> and \<open>fallback_operation\<close> are the configuration and two
  operations of the demo in \<^verbatim>\<open>main\<close>.
\<close>

fun circuit_calls :: "ResilienceConfig \<Rightarrow> 'w runtime \<Rightarrow> 'w callable list \<Rightarrow> CircuitBreaker \<times> 'w
    \<Rightarrow> CircuitBreaker \<times> 'w" where
  "circuit_calls cfg rt [] s = s"
| "circuit_calls cfg rt (operation # rest) s =
     circuit_calls cfg rt rest (snd (circuit_execute cfg rt operation s))"

datatype call_event = Enter pyfloat | Leave pyfloat "exn + val"

fun overlapping_calls :: "ResilienceConfig \<Rightarrow> double_arith \<Rightarrow> call_event list
    \<Rightarrow> CircuitBreaker \<times> nat \<Rightarrow> CircuitBreaker \<times> nat" where
  "overlapping_calls cfg ar [] s = s"
| "overlapping_calls cfg ar (Enter now # events) (cb, started) =
     (case is_open cfg ar now cb of
        (opened, cb1) \<Rightarrow>
          overlapping_calls cfg ar events (cb1, if opened then started else Suc started))"
| "overlapping_calls cfg ar (Leave now out # events) (cb, started) =
     overlapping_calls cfg ar events (circuit_settle cfg now out cb, started)"

definition demo_config :: ResilienceConfig where
  "demo_config = default_config\<lparr>max_retries := 3, base_delay := Finite (1 / 2),
     failure_threshold := 3, recovery_timeout := Finite 5\<rparr>"

definition always_fail :: "'w callable" where
  "always_fail = Sync (\<lambda>w. (Inl (TransientError ''Always fails''), w))"

definition fallback_operation :: "'w callable" where
  "fallback_operation = Sync (\<lambda>w. (Inr (Str ''Fallback result''), w))"

text \<open>An operation that always raises \<^verbatim>\<open>CatastrophicError\<close>.\<close>

definition security_violation :: "'w callable" where
  "security_violation = Sync (\<lambda>w. (Inl (CatastrophicError ''Security violation''), w))"


definition powers_grow :: "double_arith \<Rightarrow> real \<Rightarrow> bool" where
  "powers_grow ar e =
     ((\<forall>n. 1 \<le> pow_double ar e n)
      \<and> (\<forall>n n'. n \<le> n' \<longrightarrow> pow_double ar e n \<le> pow_double ar e n'))"

definition computed_power :: "double_arith \<Rightarrow> real \<Rightarrow> nat \<Rightarrow> real" where
  "computed_power ar e n = (if n = 0 \<or> e = 1 then 1 else pow_double ar e n)"



section \<open>Properties of the DAG executor\<close>

subsection \<open>\<^verbatim>\<open>execute_step\<close>\<close>





subsection \<open>The readiness query\<close>

lemma get_ready_from_fst:
  "fst (get_ready_from i steps c f) = map (visit c f) steps"
proof (induction steps arbitrary: i)
  case Nil
  then show ?case by simp
next
  case (Cons s steps)
  show ?case using Cons[of "Suc i"]
    by (auto simp: visit_def split: prod.splits)
qed

lemma get_ready_from_snd:
  "snd (get_ready_from i steps c f)
     = map (\<lambda>k. i + k) (filter (\<lambda>k. is_ready c f (steps ! k)) [0..<length steps])"
proof (induction steps arbitrary: i)
  case Nil
  then show ?case by simp
next
  case (Cons s steps)
  have up: "[0..<length (s # steps)] = 0 # map Suc [0..<length steps]"
    by (simp add: upt_conv_Cons map_Suc_upt del: upt_Suc)
  show ?case
    unfolding up using Cons[of "Suc i"]
    by (auto simp: is_ready_def filter_map comp_def split: prod.splits)
qed

lemma get_ready_steps_eq:
  "get_ready_steps steps c f
     = (map (visit c f) steps, filter (\<lambda>k. is_ready c f (steps ! k)) [0..<length steps])"
  using get_ready_from_fst[of 0 steps c f] get_ready_from_snd[of 0 steps c f]
  by (simp add: get_ready_steps_def prod_eq_iff)

text \<open>
  C5, as the code has it. One call of \<^verbatim>\<open>get_ready_steps\<close> keeps the length of the list
  and treats the step at every position \<open>k\<close> by its status alone: a step that is not
  PENDING (a SKIPPED one included) is left as it is and is not in the ready list; a PENDING
  step with some dependency id in \<open>failed\<close> becomes SKIPPED with error
  \<^verbatim>\<open>Dependency failed\<close> and is not in the ready list; otherwise, when every dependency
  id is in \<open>completed\<close>, it becomes READY and is in the ready list; otherwise it is left
  PENDING and is not in the ready list. Only the set \<open>failed\<close> is looked at: the status
  of a dependency plays no part.
\<close>

theorem get_ready_steps_by_status:
  assumes "k < length steps"
  shows "case get_ready_steps steps completed failed of (steps', ready) \<Rightarrow>
     length steps' = length steps \<and>
     (if status (steps ! k) \<noteq> PENDING
        then steps' ! k = steps ! k \<and> k \<notin> set ready
      else if \<exists>dep \<in> set (depends_on (steps ! k)). dep \<in> failed
        then steps' ! k = (steps ! k)\<lparr>status := SKIPPED, error := Some ''Dependency failed''\<rparr>
           \<and> k \<notin> set ready
      else if \<forall>dep \<in> set (depends_on (steps ! k)). dep \<in> completed
        then steps' ! k = (steps ! k)\<lparr>status := READY\<rparr> \<and> k \<in> set ready
      else steps' ! k = steps ! k \<and> status (steps' ! k) = PENDING \<and> k \<notin> set ready)"
  using assms
  by (simp add: get_ready_steps_eq visit_def is_ready_def list_ex_iff list_all_iff)

theorem get_ready_steps_by_status_witness:
  "(0::nat) < length [new_step ''b'' ''B'' (simulate_task ''b'') [''a'']]
   \<and> (case get_ready_steps [new_step ''b'' ''B'' (simulate_task ''b'') [''a'']] {} {''a''} of
        (steps', ready) \<Rightarrow>
          status (steps' ! 0) = SKIPPED \<and> error (steps' ! 0) = Some ''Dependency failed''
          \<and> ready = [])"
proof -
  have h: "(0::nat) < length [new_step ''b'' ''B'' (simulate_task ''b'') [''a'']]"
    by simp
  show ?thesis
    using get_ready_steps_by_status[OF h, of "{}" "{''a''}"]
    by (simp add: get_ready_steps_def new_step_def)
qed

text \<open>
  The claim as stated fails on a dependency that was SKIPPED before: with \<open>a\<close> failed,
  \<open>b\<close> depending on \<open>a\<close> and \<open>c\<close> depending on \<open>b\<close>, the first call skips \<open>b\<close>
  and leaves \<open>c\<close> PENDING, and so does every later call, since the id of \<open>b\<close> never
  enters \<open>failed\<close>.
\<close>

theorem get_ready_steps_skipped_dependency_counterexample:
  "(case get_ready_steps
           [new_step ''b'' ''B'' (simulate_task ''b'') [''a''],
            new_step ''c'' ''C'' (simulate_task ''c'') [''b'']] {} {''a''} of
      (steps1, ready1) \<Rightarrow>
        map status steps1 = [SKIPPED, PENDING] \<and> ready1 = [] \<and>
        (case get_ready_steps steps1 {} {''a''} of
           (steps2, ready2) \<Rightarrow> map status steps2 = [SKIPPED, PENDING] \<and> ready2 = []))"
  by (simp add: get_ready_steps_def new_step_def)

subsection \<open>The run\<close>




text \<open>
  C1 at the demo input of the source, an executor with three slots on
  \<^verbatim>\<open>create_sample_dag\<close>. The run returns with \<open>fetch_data\<close> READY and the five other
  steps PENDING, and no task has run: the counts of COMPLETED, FAILED and SKIPPED steps add
  up to 0, not to the 6 steps of the graph.
\<close>

theorem execute_sample_dag_dispatches_nothing:
  "(case execute 3 create_sample_dag 0 of
      Some (Inr (steps', calls)) \<Rightarrow>
        map status steps' = [READY, PENDING, PENDING, PENDING, PENDING, PENDING]
        \<and> calls = 0
        \<and> length (filter (\<lambda>s. status s \<in> {COMPLETED, FAILED, SKIPPED}) steps') = 0
    | _ \<Rightarrow> False)"
  by (simp add: execute_def execute_loop.simps get_ready_steps_def seed_ready_def
      create_sample_dag_def new_step_def)

subsection \<open>Graph construction\<close>








section \<open>Properties of error recovery\<close>

subsection \<open>Doubles\<close>

lemma dbl_max_bounds: "2 ^ 1023 \<le> dbl_max" "dbl_max < 2 ^ 1024"
  by (simp_all add: dbl_max_def)

lemma to_float_finite: "\<bar>r\<bar> \<le> 2 ^ 1023 \<Longrightarrow> to_float r = Finite r"
proof -
  assume "\<bar>r\<bar> \<le> 2 ^ 1023"
  then have "\<bar>r\<bar> \<le> dbl_max" using dbl_max_bounds(1) by (rule order_trans)
  then have "\<not> dbl_max < r" and "\<not> r < - dbl_max" by linarith+
  then show ?thesis by (simp add: to_float_def)
qed


lemma to_float_small: "\<bar>r\<bar> \<le> 1000 \<Longrightarrow> to_float r = Finite r"
proof -
  assume a: "\<bar>r\<bar> \<le> 1000"
  have "(1000::real) \<le> 2 ^ 1023" by simp
  then show ?thesis using a to_float_finite[of r] by linarith
qed



subsection \<open>The retry delay\<close>




lemma f_pow_overflow:
  assumes "1 \<le> e" and "powers_grow ar e" and "dbl_max < computed_power ar e n"
  shows "f_pow ar (Finite e) n = Inl overflow_error"
proof -
  have "(1::real) \<le> 2 ^ 1023" by simp
  then have one: "1 \<le> dbl_max" using dbl_max_bounds(1) by linarith
  have ne: "\<not> (n = 0 \<or> e = 1)"
  proof
    assume "n = 0 \<or> e = 1"
    then have "computed_power ar e n = 1" by (simp add: computed_power_def)
    then show False using assms(3) one by simp
  qed
  then have c: "computed_power ar e n = pow_double ar e n" by (simp add: computed_power_def)
  have "1 \<le> pow_double ar e n" using assms(2) by (simp add: powers_grow_def)
  then have a: "\<bar>pow_double ar e n\<bar> = pow_double ar e n" by simp
  have "dbl_max < \<bar>pow_double ar e n\<bar>" using assms(3) unfolding a c by simp
  then show ?thesis using ne assms(1) by (simp add: f_pow_def)
qed









subsection \<open>Retry\<close>

lemma leave_coroutine_cases:
  "leave_coroutine e
     = (if (\<exists>m. e = StopIteration m) then OtherException ''coroutine raised StopIteration''
        else e)"
  by (cases e) simp_all

lemma delivered_transient:
  "delivered operation (Inl (TransientError m)) = Raises (TransientError m)"
  by (cases operation) simp_all

lemma delivered_not_transient:
  assumes "\<not> is_transient out"
  shows "delivered operation out \<noteq> Raises (TransientError m)"
proof (cases out)
  case (Inr v)
  then show ?thesis by simp
next
  case (Inl e)
  then show ?thesis using assms by (cases e; cases operation) simp_all
qed

lemma run_execute_eq:
  "run_execute operation w
     = (delivered operation (fst (body operation w)), snd (body operation w))"
proof (cases operation)
  case (Sync f)
  show ?thesis
  proof (cases "fst (f w)")
    case (Inr v)
    then show ?thesis using Sync
      by (cases "f w") (simp add: run_in_executor_def)
  next
    case (Inl e)
    then show ?thesis using Sync
      by (cases "f w"; cases e) (simp_all add: run_in_executor_def)
  qed
next
  case (Async f)
  show ?thesis
  proof (cases "fst (f w)")
    case (Inr v)
    then show ?thesis using Async
      by (cases "f w") (simp add: await_coroutine_def)
  next
    case (Inl e)
    then show ?thesis using Async
      by (cases "f w"; cases e) (simp_all add: await_coroutine_def)
  qed
qed

lemma retry_loop_ends:
  assumes "\<not> is_transient (fst (body operation w))"
  shows "retry_loop cfg rt on_retry operation (Suc n) attempt lst w
     = (delivered operation (fst (body operation w)), snd (body operation w))"
proof (cases "delivered operation (fst (body operation w))")
  case (Returns v)
  then show ?thesis by (simp add: run_execute_eq)
next
  case Hangs
  then show ?thesis by (simp add: run_execute_eq)
next
  case (Raises e)
  then have "\<forall>m. e \<noteq> TransientError m"
    using delivered_not_transient[OF assms, of operation] by auto
  then show ?thesis using Raises by (cases e) (simp_all add: run_execute_eq)
qed

lemma retry_loop_goes_on:
  assumes "fst (body operation w) = Inl (TransientError m)"
  shows "retry_loop cfg rt on_retry operation (Suc n) attempt lst w
     = (if int attempt < max_retries cfg
        then
          (case before_retry cfg rt on_retry attempt (TransientError m)
                  (snd (body operation w)) of
             (Returns u, w2) \<Rightarrow>
               retry_loop cfg rt on_retry operation n (Suc attempt)
                 (Some (TransientError m)) w2
           | (Raises e', w2) \<Rightarrow> (Raises (leave_coroutine e'), w2)
           | (Hangs, w2) \<Rightarrow> (Hangs, w2))
        else retry_loop cfg rt on_retry operation n (Suc attempt) (Some (TransientError m))
               (snd (body operation w)))"
  using assms by (simp add: run_execute_eq delivered_transient)

lemma calculate_delay_world:
  "snd (calculate_delay cfg rt attempt w) = w
   \<or> snd (calculate_delay cfg rt attempt w) = snd (draw rt w)"
  by (cases "backoff (double_ops rt) cfg attempt"; cases "draw rt w")
     (simp_all add: calculate_delay_def)

lemma before_retry_keeps_count:
  assumes "keeps_count calls rt on_retry"
  shows "calls (snd (before_retry cfg rt on_retry attempt e w)) = calls w"
proof -
  have d: "calls (snd (draw rt w')) = calls w'" for w'
    using assms by (simp add: keeps_count_def)
  have s: "calls (snd (sleep rt dl w')) = calls w'" for dl w'
    using assms by (simp add: keeps_count_def)
  have c: "calls (snd (f a e' w')) = calls w'" if "on_retry = Some f" for f a e' w'
    using assms that by (simp add: keeps_count_def)
  obtain r w1 where cd: "calculate_delay cfg rt attempt w = (r, w1)"
    by (cases "calculate_delay cfg rt attempt w")
  have c1: "calls w1 = calls w"
    using calculate_delay_world[of cfg rt attempt w] cd d[of w] by auto
  show ?thesis
  proof (cases r)
    case (Inl e1)
    then show ?thesis using cd c1 by (simp add: before_retry_def)
  next
    case (Inr delay)
    show ?thesis
    proof (cases on_retry)
      case None
      then show ?thesis using cd Inr c1 s[of delay w1] by (simp add: before_retry_def)
    next
      case (Some f)
      obtain r2 w2 where f: "f (int attempt + 1) e w1 = (r2, w2)"
        by (cases "f (int attempt + 1) e w1")
      have c2: "calls w2 = calls w"
        using c[OF Some, of "int attempt + 1" e w1] f c1 by simp
      show ?thesis
        using cd Inr Some f c2 s[of delay w2]
        by (cases r2) (simp_all add: before_retry_def)
    qed
  qed
qed

lemma script_at:
  assumes "follows_script calls operation script"
  shows "fst (body operation w) = script (calls w)"
    and "calls (snd (body operation w)) = Suc (calls w)"
  using assms by (simp_all add: follows_script_def)

lemma transient_cases:
  assumes "is_transient out"
  obtains m where "out = Inl (TransientError m)"
  using assms by (cases out rule: is_transient.cases) auto

lemma retry_loop_stops:
  assumes "follows_script calls operation script" and "keeps_count calls rt on_retry"
    and "k < n" and "\<forall>i<k. is_transient (script (calls w + i))"
    and "\<forall>i<k. \<forall>e w'. fst (before_retry cfg rt on_retry (attempt + i) e w') = Returns ()"
    and "\<not> is_transient (script (calls w + k))"
  shows "fst (retry_loop cfg rt on_retry operation n attempt lst w)
           = delivered operation (script (calls w + k))
       \<and> calls (snd (retry_loop cfg rt on_retry operation n attempt lst w)) = calls w + k + 1"
  using assms(3-6)
proof (induction n arbitrary: k attempt lst w)
  case 0
  then show ?case by simp
next
  case (Suc n)
  let ?w1 = "snd (body operation w)"
  have out: "fst (body operation w) = script (calls w)" and c1: "calls ?w1 = Suc (calls w)"
    using script_at[OF assms(1)] by simp_all
  show ?case
  proof (cases k)
    case 0
    then have nt: "\<not> is_transient (fst (body operation w))" using Suc.prems(4) out by simp
    show ?thesis
      unfolding retry_loop_ends[OF nt] using 0 out c1 by simp
  next
    case (Suc k')
    then have "is_transient (script (calls w + 0))" using Suc.prems(2) by blast
    then obtain m where o: "fst (body operation w) = Inl (TransientError m)"
      using out by (auto elim: transient_cases)
    have p1: "k' < n" using Suc.prems(1) Suc by simp
    have shift: "calls w + Suc i = Suc (calls w) + i" for i by simp
    have p2: "\<forall>i<k'. is_transient (script (Suc (calls w) + i))"
    proof (intro allI impI)
      fix i assume "i < k'"
      then have "Suc i < k" using Suc by simp
      then have "is_transient (script (calls w + Suc i))" using Suc.prems(2) by blast
      then show "is_transient (script (Suc (calls w) + i))" by simp
    qed
    have p3: "\<forall>i<k'. \<forall>e w'. fst (before_retry cfg rt on_retry (Suc attempt + i) e w')
        = Returns ()"
    proof (intro allI impI)
      fix i e w' assume "i < k'"
      then have "Suc i < k" using Suc by simp
      then have "fst (before_retry cfg rt on_retry (attempt + Suc i) e w') = Returns ()"
        using Suc.prems(3) by blast
      then show "fst (before_retry cfg rt on_retry (Suc attempt + i) e w') = Returns ()"
        by simp
    qed
    have p4: "\<not> is_transient (script (Suc (calls w) + k'))"
      using Suc.prems(4) Suc by simp
    have ih: "fst (retry_loop cfg rt on_retry operation n (Suc attempt) l w2)
           = delivered operation (script (calls w + k))
       \<and> calls (snd (retry_loop cfg rt on_retry operation n (Suc attempt) l w2))
           = calls w + k + 1"
      if "calls w2 = Suc (calls w)" for l w2
      using Suc.IH[OF p1, of w2 "Suc attempt" l] p2 p3 p4 that Suc by simp
    show ?thesis
    proof (cases "int attempt < max_retries cfg")
      case False
      then show ?thesis
        unfolding retry_loop_goes_on[OF o] using ih[OF c1] by simp
    next
      case True
      obtain x w2 where b: "before_retry cfg rt on_retry attempt (TransientError m) ?w1 = (x, w2)"
        by (cases "before_retry cfg rt on_retry attempt (TransientError m) ?w1")
      have "0 < k" using Suc by simp
      then have "fst (before_retry cfg rt on_retry (attempt + 0) (TransientError m) ?w1)
          = Returns ()"
        using Suc.prems(3) by blast
      then have x: "x = Returns ()" using b by simp
      have c2: "calls w2 = Suc (calls w)"
        using before_retry_keeps_count[OF assms(2), of cfg attempt "TransientError m" ?w1] b c1
        by simp
      show ?thesis
        unfolding retry_loop_goes_on[OF o] using True b x ih[OF c2] by simp
    qed
  qed
qed











lemma still_runtime_keeps: "keeps_count calls still_runtime None"
  by (simp add: keeps_count_def still_runtime_def)










subsection \<open>Fallback chain\<close>

lemma chain_attempt_eq: "chain_attempt cfg rt operation w = timed_attempt cfg rt operation w"
  by (cases operation) (simp_all add: timed_attempt_def)

lemma attempt_outcome_0:
  "attempt_outcome cfg rt (operation # rest) 0 w = fst (timed_attempt cfg rt operation w)"
  by (simp add: attempt_outcome_def)

lemma attempt_outcome_Suc:
  "attempt_outcome cfg rt (operation # rest) (Suc k) w
     = attempt_outcome cfg rt rest k (snd (timed_attempt cfg rt operation w))"
  by (simp add: attempt_outcome_def)

lemma soft_failure_cases:
  assumes "soft_failure out"
  obtains e where "out = Inl e" and "\<forall>m. e \<noteq> CatastrophicError m"
    and "\<forall>m. e \<noteq> BaseExceptionOnly m"
  using assms by (cases out rule: soft_failure.cases) auto

lemma chain_loop_soft_step:
  assumes "timed_attempt cfg rt operation w = (Inl e, w1)"
    and "\<forall>m. e \<noteq> CatastrophicError m" and "\<forall>m. e \<noteq> BaseExceptionOnly m"
  shows "chain_loop cfg rt n_ops level (operation # rest) w
     = (if int level = int n_ops - 1
        then (Inr \<lparr>success = False, fb_result = NoneVal, fallback_level = level,
                   fb_error = Some e\<rparr>, w1)
        else chain_loop cfg rt n_ops (Suc level) rest w1)"
  using assms by (cases e) (simp_all add: chain_attempt_eq)

lemma chain_loop_hard_step:
  assumes "timed_attempt cfg rt operation w = (out, w1)" and "\<not> soft_failure out"
  shows "chain_loop cfg rt n_ops level (operation # rest) w
     = ((case out of
           Inr v \<Rightarrow> Inr \<lparr>success = True, fb_result = v, fallback_level = level,
                         fb_error = None\<rparr>
         | Inl e \<Rightarrow> Inl e), w1)"
proof (cases out)
  case (Inr v)
  then show ?thesis using assms(1) by (simp add: chain_attempt_eq)
next
  case (Inl e)
  then show ?thesis using assms by (cases e) (simp_all add: chain_attempt_eq)
qed

lemma chain_loop_stops:
  assumes "n_ops = level + length ops" and "k < length ops"
    and "\<forall>i<k. soft_failure (attempt_outcome cfg rt ops i w)"
    and "\<not> soft_failure (attempt_outcome cfg rt ops k w)"
  shows "chain_loop cfg rt n_ops level ops w
     = ((case attempt_outcome cfg rt ops k w of
           Inr v \<Rightarrow> Inr \<lparr>success = True, fb_result = v, fallback_level = level + k,
                         fb_error = None\<rparr>
         | Inl e \<Rightarrow> Inl e),
        after_attempts cfg rt (take (Suc k) ops) w)"
  using assms
proof (induction ops arbitrary: level k w)
  case Nil
  then show ?case by simp
next
  case (Cons operation rest)
  obtain out w1 where a: "timed_attempt cfg rt operation w = (out, w1)"
    by (cases "timed_attempt cfg rt operation w")
  show ?case
  proof (cases k)
    case 0
    then have ns: "\<not> soft_failure out"
      using Cons.prems(4) a by (simp add: attempt_outcome_0)
    show ?thesis
      unfolding chain_loop_hard_step[OF a ns] using a 0
      by (simp add: attempt_outcome_0 split: sum.splits)
  next
    case (Suc k')
    have "soft_failure (attempt_outcome cfg rt (operation # rest) 0 w)"
      using Cons.prems(3) Suc by blast
    then have "soft_failure out" using a by (simp add: attempt_outcome_0)
    then obtain e where o: "out = Inl e" and nc: "\<forall>m. e \<noteq> CatastrophicError m"
      and nb: "\<forall>m. e \<noteq> BaseExceptionOnly m"
      by (rule soft_failure_cases)
    have notlast: "int level \<noteq> int n_ops - 1"
      using Cons.prems(1,2) Suc by auto
    have step: "chain_loop cfg rt n_ops level (operation # rest) w
        = chain_loop cfg rt n_ops (Suc level) rest w1"
      using chain_loop_soft_step[OF a[unfolded o] nc nb] notlast by simp
    have p1: "n_ops = Suc level + length rest" using Cons.prems(1) by simp
    have p2: "k' < length rest" using Cons.prems(2) Suc by simp
    have p3: "\<forall>i<k'. soft_failure (attempt_outcome cfg rt rest i w1)"
    proof (intro allI impI)
      fix i assume "i < k'"
      then have "Suc i < k" using Suc by simp
      then have "soft_failure (attempt_outcome cfg rt (operation # rest) (Suc i) w)"
        using Cons.prems(3) by blast
      then show "soft_failure (attempt_outcome cfg rt rest i w1)"
        using a by (simp add: attempt_outcome_Suc)
    qed
    have p4: "\<not> soft_failure (attempt_outcome cfg rt rest k' w1)"
      using Cons.prems(4) Suc a by (simp add: attempt_outcome_Suc)
    show ?thesis
      unfolding step
      using Cons.IH[OF p1 p2 p3 p4] Suc a
      by (simp add: attempt_outcome_Suc split: sum.splits)
  qed
qed

lemma chain_loop_all_fail:
  assumes "n_ops = level + length ops" and "ops \<noteq> []"
    and "\<forall>i<length ops. soft_failure (attempt_outcome cfg rt ops i w)"
  shows "chain_loop cfg rt n_ops level ops w
     = ((case attempt_outcome cfg rt ops (length ops - 1) w of
           Inl e \<Rightarrow> Inr \<lparr>success = False, fb_result = NoneVal,
                         fallback_level = level + length ops - 1, fb_error = Some e\<rparr>
         | Inr v \<Rightarrow> Inl (OtherException [])),
        after_attempts cfg rt ops w)"
  using assms
proof (induction ops arbitrary: level w)
  case Nil
  then show ?case by simp
next
  case (Cons operation rest)
  obtain out w1 where a: "timed_attempt cfg rt operation w = (out, w1)"
    by (cases "timed_attempt cfg rt operation w")
  have "soft_failure (attempt_outcome cfg rt (operation # rest) 0 w)"
    using Cons.prems(3) by simp
  then have "soft_failure out" using a by (simp add: attempt_outcome_0)
  then obtain e where o: "out = Inl e" and nc: "\<forall>m. e \<noteq> CatastrophicError m"
    and nb: "\<forall>m. e \<noteq> BaseExceptionOnly m"
    by (rule soft_failure_cases)
  note st = chain_loop_soft_step[OF a[unfolded o] nc nb, of n_ops level rest]
  show ?case
  proof (cases "rest = []")
    case True
    then have "int level = int n_ops - 1" using Cons.prems(1) by simp
    then show ?thesis using st True a o by (simp add: attempt_outcome_0)
  next
    case False
    then have notlast: "int level \<noteq> int n_ops - 1" using Cons.prems(1) by auto
    have p1: "n_ops = Suc level + length rest" using Cons.prems(1) by simp
    have p3: "\<forall>i<length rest. soft_failure (attempt_outcome cfg rt rest i w1)"
    proof (intro allI impI)
      fix i assume "i < length rest"
      then have "Suc i < length (operation # rest)" by simp
      then have "soft_failure (attempt_outcome cfg rt (operation # rest) (Suc i) w)"
        using Cons.prems(3) by blast
      then show "soft_failure (attempt_outcome cfg rt rest i w1)"
        using a by (simp add: attempt_outcome_Suc)
    qed
    have pos: "length rest - 1 + 1 = length rest" using False by (cases rest) simp_all
    have idx: "attempt_outcome cfg rt (operation # rest) (length (operation # rest) - 1) w
        = attempt_outcome cfg rt rest (length rest - 1) w1"
      using attempt_outcome_Suc[of cfg rt operation rest "length rest - 1" w] a pos by simp
    have ar: "Suc level + length rest - 1 = level + length (operation # rest) - 1" by simp
    have aw: "after_attempts cfg rt (operation # rest) w = after_attempts cfg rt rest w1"
      using a by simp
    have "chain_loop cfg rt n_ops level (operation # rest) w
        = chain_loop cfg rt n_ops (Suc level) rest w1"
      using st notlast by simp
    then show ?thesis
      unfolding idx aw using Cons.IH[OF p1 False p3] by (simp only: ar)
  qed
qed

lemma chain_operations_shape:
  "\<exists>j. chain_operations cfg fallbacks primary = primary # take j fallbacks"
  by (auto simp: chain_operations_def slice_to_def)

lemma chain_operations_depth:
  assumes "1 \<le> max_fallback_depth cfg"
  shows "chain_operations cfg fallbacks primary
     = primary # take (nat (max_fallback_depth cfg - 1)) fallbacks"
  using assms by (simp add: chain_operations_def slice_to_def)

text \<open>
  C7, as the code has it. Let \<open>ops\<close> be the list \<^verbatim>\<open>operations\<close> of the chain. For
  \<open>max_fallback_depth \<ge> 1\<close> it is exactly the primary followed by the first
  \<open>max_fallback_depth - 1\<close> fallbacks, in their order (all of them when there are
  fewer), so it has at most \<open>max_fallback_depth\<close> entries; for every
  \<open>max_fallback_depth\<close> it is the primary followed by an initial part of the fallbacks.
  The chain attempts the operations of \<open>ops\<close> in that order, each at most once, an
  attempt being an await under \<^verbatim>\<open>wait_for\<close> with \<open>fallback_timeout\<close> for a coroutine
  function and a plain call for any other callable: when the first \<open>k\<close> attempts fail
  softly and attempt number \<open>k\<close> does not, the chain stops there, after exactly
  \<open>k + 1\<close> attempts, returning the success with its value and level or raising the
  exception (a CatastrophicError, or one that is not an \<^verbatim>\<open>Exception\<close>); when every
  attempt fails softly, the chain has attempted every operation of \<open>ops\<close> and returns
  a failure that carries the error of the last one.
\<close>

theorem chain_execute_attempts:
  assumes "ops = chain_operations cfg fallbacks primary"
  shows "(1 \<le> max_fallback_depth cfg
          \<longrightarrow> ops = primary # take (nat (max_fallback_depth cfg - 1)) fallbacks)
     \<and> (\<exists>j. ops = primary # take j fallbacks)
     \<and> (\<forall>k. k < length ops \<and> (\<forall>i<k. soft_failure (attempt_outcome cfg rt ops i w))
              \<and> \<not> soft_failure (attempt_outcome cfg rt ops k w)
          \<longrightarrow> chain_execute cfg rt fallbacks primary w
                = ((case attempt_outcome cfg rt ops k w of
                      Inr v \<Rightarrow> Inr \<lparr>success = True, fb_result = v, fallback_level = k,
                                    fb_error = None\<rparr>
                    | Inl e \<Rightarrow> Inl e),
                   after_attempts cfg rt (take (Suc k) ops) w))
     \<and> ((\<forall>i<length ops. soft_failure (attempt_outcome cfg rt ops i w))
          \<longrightarrow> (\<exists>e. attempt_outcome cfg rt ops (length ops - 1) w = Inl e
                 \<and> chain_execute cfg rt fallbacks primary w
                     = (Inr \<lparr>success = False, fb_result = NoneVal,
                             fallback_level = length ops - 1, fb_error = Some e\<rparr>,
                        after_attempts cfg rt ops w)))"
proof (intro conjI allI impI)
  assume "1 \<le> max_fallback_depth cfg"
  then show "ops = primary # take (nat (max_fallback_depth cfg - 1)) fallbacks"
    unfolding assms by (rule chain_operations_depth)
next
  show "\<exists>j. ops = primary # take j fallbacks"
    unfolding assms by (rule chain_operations_shape)
next
  fix k
  assume a: "k < length ops \<and> (\<forall>i<k. soft_failure (attempt_outcome cfg rt ops i w))
      \<and> \<not> soft_failure (attempt_outcome cfg rt ops k w)"
  have "chain_loop cfg rt (length ops) 0 ops w
      = ((case attempt_outcome cfg rt ops k w of
            Inr v \<Rightarrow> Inr \<lparr>success = True, fb_result = v, fallback_level = 0 + k,
                          fb_error = None\<rparr>
          | Inl e \<Rightarrow> Inl e),
         after_attempts cfg rt (take (Suc k) ops) w)"
    using a by (intro chain_loop_stops) simp_all
  moreover have "chain_execute cfg rt fallbacks primary w = chain_loop cfg rt (length ops) 0 ops w"
    by (simp add: chain_execute_def assms Let_def)
  ultimately show "chain_execute cfg rt fallbacks primary w
      = ((case attempt_outcome cfg rt ops k w of
            Inr v \<Rightarrow> Inr \<lparr>success = True, fb_result = v, fallback_level = k,
                          fb_error = None\<rparr>
          | Inl e \<Rightarrow> Inl e),
         after_attempts cfg rt (take (Suc k) ops) w)"
    by (simp split: sum.splits)
next
  assume a: "\<forall>i<length ops. soft_failure (attempt_outcome cfg rt ops i w)"
  have ne: "ops \<noteq> []" unfolding assms by (simp add: chain_operations_def)
  then have "length ops - 1 < length ops" by (cases ops) simp_all
  then have "soft_failure (attempt_outcome cfg rt ops (length ops - 1) w)"
    using a by blast
  then obtain e where e: "attempt_outcome cfg rt ops (length ops - 1) w = Inl e"
    by (rule soft_failure_cases)
  have "chain_loop cfg rt (length ops) 0 ops w
      = ((case attempt_outcome cfg rt ops (length ops - 1) w of
            Inl e \<Rightarrow> Inr \<lparr>success = False, fb_result = NoneVal,
                          fallback_level = 0 + length ops - 1, fb_error = Some e\<rparr>
          | Inr v \<Rightarrow> Inl (OtherException [])),
         after_attempts cfg rt ops w)"
    using a ne by (intro chain_loop_all_fail) simp_all
  moreover have "chain_execute cfg rt fallbacks primary w = chain_loop cfg rt (length ops) 0 ops w"
    by (simp add: chain_execute_def assms Let_def)
  ultimately have "chain_execute cfg rt fallbacks primary w
      = (Inr \<lparr>success = False, fb_result = NoneVal,
              fallback_level = length ops - 1, fb_error = Some e\<rparr>,
         after_attempts cfg rt ops w)"
    unfolding e by simp
  then show "\<exists>e. attempt_outcome cfg rt ops (length ops - 1) w = Inl e
      \<and> chain_execute cfg rt fallbacks primary w
          = (Inr \<lparr>success = False, fb_result = NoneVal,
                  fallback_level = length ops - 1, fb_error = Some e\<rparr>,
             after_attempts cfg rt ops w)"
    using e by blast
qed

text \<open>
  Two runs on the clock. With the defaults (\<open>max_fallback_depth = 4\<close>,
  \<open>fallback_timeout = 60\<close>), a primary coroutine function that takes 100 seconds is
  cut off after 60 with a timeout error, and the fallback provides the result at level 1.
  With \<open>max_fallback_depth = 2\<close> and three fallbacks, when everything fails only the
  primary and the first fallback are attempted, and the failure carries the error of that
  fallback.
\<close>

theorem chain_execute_attempts_witness:
  "chain_execute default_config clock_runtime [fallback_operation]
     (Async (\<lambda>t. (Inr (Str ''slow''), t + 100))) 0
   = (Inr \<lparr>success = True, fb_result = Str ''Fallback result'', fallback_level = 1,
           fb_error = None\<rparr>, 60)
   \<and> chain_execute (default_config\<lparr>max_fallback_depth := 2\<rparr>) clock_runtime
       [Sync (\<lambda>t. (Inl (PermanentError ''f1''), t + 1)),
        Sync (\<lambda>t. (Inl (PermanentError ''f2''), t + 1)),
        Sync (\<lambda>t. (Inl (PermanentError ''f3''), t + 1))]
       (Sync (\<lambda>t. (Inl (PermanentError ''primary''), t + 1))) 0
   = (Inr \<lparr>success = False, fb_result = NoneVal, fallback_level = 1,
           fb_error = Some (PermanentError ''f1'')\<rparr>, 2)"
proof -
  define slow :: "real callable" where "slow = Async (\<lambda>t. (Inr (Str ''slow''), t + 100))"
  define ops :: "real callable list" where "ops = [slow, fallback_operation]"
  have o: "ops = chain_operations default_config [fallback_operation] slow"
    by (simp add: ops_def chain_operations_def slice_to_def default_config_def)
  have o0: "attempt_outcome default_config clock_runtime ops 0 0 = Inl (OtherException '''')"
    by (simp add: attempt_outcome_def timed_attempt_def ops_def slow_def clock_runtime_def
        await_coroutine_def default_config_def)
  have o1: "attempt_outcome default_config clock_runtime ops 1 0
      = Inr (Str ''Fallback result'')"
    by (simp add: attempt_outcome_def timed_attempt_def ops_def slow_def clock_runtime_def
        await_coroutine_def default_config_def fallback_operation_def)
  have aw: "after_attempts default_config clock_runtime (take (Suc 1) ops) 0 = 60"
    by (simp add: timed_attempt_def ops_def slow_def clock_runtime_def
        await_coroutine_def default_config_def fallback_operation_def)
  have h: "1 < length ops
      \<and> (\<forall>i<1. soft_failure (attempt_outcome default_config clock_runtime ops i 0))
      \<and> \<not> soft_failure (attempt_outcome default_config clock_runtime ops 1 0)"
    using o0 o1 by (simp add: ops_def)
  have "chain_execute default_config clock_runtime [fallback_operation] slow 0
     = ((case attempt_outcome default_config clock_runtime ops 1 0 of
           Inr v \<Rightarrow> Inr \<lparr>success = True, fb_result = v, fallback_level = 1,
                         fb_error = None\<rparr>
         | Inl e \<Rightarrow> Inl e),
        after_attempts default_config clock_runtime (take (Suc 1) ops) 0)"
    using chain_execute_attempts[OF o, of clock_runtime 0] h by blast
  then have a: "chain_execute default_config clock_runtime [fallback_operation] slow 0
     = (Inr \<lparr>success = True, fb_result = Str ''Fallback result'', fallback_level = 1,
             fb_error = None\<rparr>, 60)"
    unfolding o1 aw by simp
  define cfg2 where "cfg2 = default_config\<lparr>max_fallback_depth := 2\<rparr>"
  define failing :: "string \<Rightarrow> real callable" where
    "failing = (\<lambda>n. Sync (\<lambda>t. (Inl (PermanentError n), t + 1)))"
  define ops2 :: "real callable list" where
    "ops2 = chain_operations cfg2 [failing ''f1'', failing ''f2'', failing ''f3'']
       (failing ''primary'')"
  have d: "1 \<le> max_fallback_depth cfg2" by (simp add: cfg2_def)
  note th2 = chain_execute_attempts[OF ops2_def, of clock_runtime 0]
  have e2: "ops2 = [failing ''primary'', failing ''f1'']"
    using th2 d by (simp add: cfg2_def)
  have all: "\<forall>i<length ops2. soft_failure (attempt_outcome cfg2 clock_runtime ops2 i 0)"
    unfolding e2
    by (simp add: attempt_outcome_def timed_attempt_def failing_def less_Suc_eq)
  obtain e where e: "attempt_outcome cfg2 clock_runtime ops2 (length ops2 - 1) 0 = Inl e"
    and c: "chain_execute cfg2 clock_runtime [failing ''f1'', failing ''f2'', failing ''f3'']
        (failing ''primary'') 0
      = (Inr \<lparr>success = False, fb_result = NoneVal, fallback_level = length ops2 - 1,
              fb_error = Some e\<rparr>, after_attempts cfg2 clock_runtime ops2 0)"
    using th2 all by blast
  have e': "e = PermanentError ''f1''"
    using e unfolding e2 by (simp add: attempt_outcome_def timed_attempt_def failing_def)
  have aw2: "after_attempts cfg2 clock_runtime ops2 0 = 2"
    unfolding e2 by (simp add: timed_attempt_def failing_def)
  have b: "chain_execute cfg2 clock_runtime [failing ''f1'', failing ''f2'', failing ''f3'']
        (failing ''primary'') 0
      = (Inr \<lparr>success = False, fb_result = NoneVal, fallback_level = 1,
              fb_error = Some (PermanentError ''f1'')\<rparr>, 2)"
    using c e' aw2 unfolding e2 by simp
  show ?thesis
    using a b unfolding slow_def cfg2_def failing_def by simp
qed

text \<open>
  The claim as stated fails for \<open>max_fallback_depth = 0\<close>: the primary and the fallbacks
  but the last are attempted, three attempts here. It also fails for the time bound: a
  plain callable that takes 100 seconds of the clock succeeds under a \<open>fallback_timeout\<close>
  of 60, where a coroutine function with the same body is cut off (see the run above).
\<close>

theorem chain_execute_depth_and_timeout_counterexample:
  "max_fallback_depth (default_config\<lparr>max_fallback_depth := 0\<rparr>) = 0
   \<and> chain_execute (default_config\<lparr>max_fallback_depth := 0\<rparr>) still_runtime
       [scripted [] (Inl (PermanentError ''f1'')), scripted [] (Inl (PermanentError ''f2'')),
        scripted [] (Inl (PermanentError ''f3''))]
       (scripted [] (Inl (PermanentError ''primary''))) 0
     = (Inr \<lparr>success = False, fb_result = NoneVal, fallback_level = 2,
             fb_error = Some (PermanentError ''f2'')\<rparr>, 3)
   \<and> fallback_timeout default_config = Finite 60
   \<and> chain_execute default_config clock_runtime []
       (Sync (\<lambda>t. (Inr (Str ''slow''), t + 100))) 0
     = (Inr \<lparr>success = True, fb_result = Str ''slow'', fallback_level = 0,
             fb_error = None\<rparr>, 100)"
  by (simp add: chain_execute_def chain_operations_def slice_to_def scripted_def
      default_config_def Let_def)

subsection \<open>Circuit breaker\<close>

lemma call_operation_eq:
  "call_operation operation w
     = (case fst (body operation w) of
          Inr v \<Rightarrow> (Inr v, snd (body operation w))
        | Inl e \<Rightarrow>
            (Inl (case operation of Async f \<Rightarrow> leave_coroutine e | Sync f \<Rightarrow> e),
             snd (body operation w)))"
  by (cases operation; cases "body operation w"; cases "fst (body operation w)")
     (simp_all add: await_coroutine_def)

lemma execute_rejected:
  assumes "state cb = OPEN" and "last_failure_time cb = Some t"
    and "\<not> f_ge (f_sub (double_ops rt) (time_now rt w) t) (recovery_timeout cfg)"
  shows "circuit_execute cfg rt operation (cb, w)
     = (Inl (TransientError (''Circuit '' @ cb_name cb @ '' is open'')), (cb, w))"
  using assms by (simp add: circuit_execute_def is_open_def should_attempt_recovery_def)

lemma execute_recovering:
  assumes "state cb = OPEN" and "last_failure_time cb = Some t"
    and "f_ge (f_sub (double_ops rt) (time_now rt w) t) (recovery_timeout cfg)"
  shows "is_open cfg (double_ops rt) (time_now rt w) cb
           = (False, cb\<lparr>state := HALF_OPEN, half_open_calls := 0\<rparr>)"
    and "circuit_execute cfg rt operation (cb, w)
     = circuit_execute cfg rt operation (cb\<lparr>state := HALF_OPEN, half_open_calls := 0\<rparr>, w)"
  using assms by (simp_all add: circuit_execute_def is_open_def should_attempt_recovery_def)

lemma execute_not_open:
  assumes "state cb \<noteq> OPEN"
  shows "circuit_execute cfg rt operation (cb, w)
     = (case call_operation operation w of
          (Inr v, w1) \<Rightarrow> (Inr v, (record_success cfg cb, w1))
        | (Inl e, w1) \<Rightarrow>
            (Inl (leave_coroutine e),
             (if is_Exception e then record_failure cfg (time_now rt w1) cb else cb, w1)))"
  using assms
  by (simp add: circuit_execute_def is_open_def circuit_settle_def split: prod.splits sum.splits)

lemma record_failure_fields:
  "failure_count (record_failure cfg now cb) = failure_count cb + 1
   \<and> last_failure_time (record_failure cfg now cb) = Some now
   \<and> state (record_failure cfg now cb)
       = (if state cb = HALF_OPEN \<or> failure_count cb + 1 \<ge> failure_threshold cfg
          then OPEN else state cb)"
  by (simp add: record_failure_def Let_def)

lemma record_success_fields:
  "failure_count (record_success cfg cb) = 0
   \<and> state (record_success cfg cb)
       = (if state cb = HALF_OPEN \<and> success_count cb + 1 \<ge> half_open_max_calls cfg
          then CLOSED else state cb)
   \<and> success_count (record_success cfg cb)
       = (if state cb = HALF_OPEN
          then (if success_count cb + 1 \<ge> half_open_max_calls cfg then 0
                else success_count cb + 1)
          else success_count cb)"
  by (simp add: record_success_def Let_def)

lemma not_open_is_admitted:
  assumes "state cb \<noteq> OPEN"
  shows "is_open cfg ar now cb = (False, cb)"
  using assms by (simp add: is_open_def)

text \<open>
  Calls that start on a breaker that is not OPEN, before any call under way has ended, all
  pass the test and leave the breaker as it is: nothing counts them, whatever
  \<open>half_open_max_calls\<close> is.
\<close>

lemma overlapping_calls_all_enter:
  assumes "state cb \<noteq> OPEN"
  shows "overlapping_calls cfg ar (map Enter nows) (cb, started)
     = (cb, started + length nows)"
  using assms
  by (induction nows arbitrary: started) (simp_all add: not_open_is_admitted)

text \<open>
  C4 at a breaker with the defaults (\<open>failure_threshold = 5\<close>,
  \<open>recovery_timeout = 30\<close>, \<open>half_open_max_calls = 3\<close>). Five failing calls at clock
  reading 0 open the breaker. At clock reading 31 five calls of
  \<^verbatim>\<open>CircuitBreaker.execute\<close> with a coroutine function start one after the other
  before any of them has ended (as under \<^verbatim>\<open>asyncio.gather\<close>): the first makes the
  breaker HALF_OPEN, and all five pass the test and start their operation, two more than
  \<open>half_open_max_calls\<close>. The field \<open>half_open_calls\<close> is still 0.
\<close>

theorem half_open_admits_every_overlapping_call:
  "(case circuit_calls default_config clock_runtime
           [always_fail, always_fail, always_fail, always_fail, always_fail]
           (new_circuit_breaker ''svc'', 0) of
      (cb, t) \<Rightarrow>
        state cb = OPEN \<and> last_failure_time cb = Some (Finite 0)
        \<and> half_open_max_calls default_config = 3
        \<and> overlapping_calls default_config exact_arith
             [Enter (Finite 31), Enter (Finite 31), Enter (Finite 31), Enter (Finite 31),
              Enter (Finite 31)] (cb, 0)
           = (cb\<lparr>state := HALF_OPEN, half_open_calls := 0\<rparr>, 5))"
  by (simp add: circuit_execute_def is_open_def should_attempt_recovery_def
      circuit_settle_def record_failure_def always_fail_def new_circuit_breaker_def
      default_config_def clock_runtime_def exact_arith_def f_sub_def f_ge_def
      to_float_small Let_def)

text \<open>
  The success count is not reset when a HALF_OPEN breaker opens again: after two successes
  and a failure in one HALF_OPEN episode, a single success in the next episode closes the
  breaker.
\<close>

lemma half_open_success_count_is_stale:
  "(case circuit_calls default_config clock_runtime
           [fallback_operation, fallback_operation, always_fail]
           ((new_circuit_breaker ''svc'')\<lparr>state := HALF_OPEN\<rparr>, 0) of
      (cb, t) \<Rightarrow>
        state cb = OPEN \<and> success_count cb = 2
        \<and> state (fst (circuit_calls default_config clock_runtime [fallback_operation]
                         (cb, 31))) = CLOSED)"
  by (simp add: circuit_execute_def is_open_def should_attempt_recovery_def
      circuit_settle_def record_failure_def record_success_def always_fail_def
      fallback_operation_def new_circuit_breaker_def
      default_config_def clock_runtime_def exact_arith_def f_sub_def f_ge_def
      to_float_small Let_def)

subsection \<open>Catastrophic errors\<close>

lemma circuit_execute_raises:
  assumes "state cb \<noteq> OPEN" and "body operation w = (Inl (CatastrophicError m), w1)"
  shows "circuit_execute cfg rt operation (cb, w)
     = (Inl (CatastrophicError m), (record_failure cfg (time_now rt w1) cb, w1))"
  using assms by (simp add: execute_not_open call_operation_eq split: callable.splits)

text \<open>
  C3, as the code has it. A CatastrophicError leaves every layer at once:
  \<^item> in \<^verbatim>\<open>execute_with_retry\<close>, when an attempt raises it, it is raised at once and
    the world is the one that attempt left (no pause, no further call); so, when the
    attempts before it raised TransientError and were retried, it is the outcome of the
    function and the operation is not called again;
  \<^item> in \<^verbatim>\<open>FallbackChain.execute\<close>, when the attempts before it failed softly, it is
    raised by the chain and no later operation is attempted;
  \<^item> in \<^verbatim>\<open>CircuitBreaker.execute\<close>, on a breaker that lets the call through, it is
    raised again unchanged, and the breaker records it by \<^verbatim>\<open>record_failure\<close> like any
    other exception: the failure count goes up by one, the time of the last failure is
    set, and the breaker opens when it was HALF_OPEN or the count reaches the threshold.
\<close>

theorem catastrophic_error_propagation:
  shows "(fst (body operation w) = Inl (CatastrophicError m)
          \<longrightarrow> retry_loop cfg rt on_retry operation (Suc n) attempt lst w
                = (Raises (CatastrophicError m), snd (body operation w)))
     \<and> (follows_script calls operation script \<and> keeps_count calls rt on_retry
            \<and> int k \<le> max_retries cfg
            \<and> (\<forall>i<k. is_transient (script (calls w + i)))
            \<and> pauses_complete cfg rt on_retry k
            \<and> script (calls w + k) = Inl (CatastrophicError m)
          \<longrightarrow> fst (execute_with_retry cfg rt on_retry operation w)
                = Raises (CatastrophicError m)
            \<and> calls (snd (execute_with_retry cfg rt on_retry operation w)) = calls w + k + 1)
     \<and> (ops = chain_operations cfg fallbacks primary \<and> k < length ops
            \<and> (\<forall>i<k. soft_failure (attempt_outcome cfg rt ops i w))
            \<and> attempt_outcome cfg rt ops k w = Inl (CatastrophicError m)
          \<longrightarrow> chain_execute cfg rt fallbacks primary w
                = (Inl (CatastrophicError m), after_attempts cfg rt (take (Suc k) ops) w))
     \<and> (state cb \<noteq> OPEN \<and> body operation w = (Inl (CatastrophicError m), w')
          \<longrightarrow> fst (circuit_execute cfg rt operation (cb, w)) = Inl (CatastrophicError m)
            \<and> snd (circuit_execute cfg rt operation (cb, w))
                = (record_failure cfg (time_now rt w') cb, w')
            \<and> failure_count (fst (snd (circuit_execute cfg rt operation (cb, w))))
                = failure_count cb + 1
            \<and> last_failure_time (fst (snd (circuit_execute cfg rt operation (cb, w))))
                = Some (time_now rt w')
            \<and> state (fst (snd (circuit_execute cfg rt operation (cb, w))))
                = (if state cb = HALF_OPEN \<or> failure_count cb + 1 \<ge> failure_threshold cfg
                   then OPEN else state cb))"
proof (intro conjI impI)
  assume a: "fst (body operation w) = Inl (CatastrophicError m)"
  then have nt: "\<not> is_transient (fst (body operation w))" by simp
  have "delivered operation (Inl (CatastrophicError m)) = Raises (CatastrophicError m)"
    by (cases operation) simp_all
  then show "retry_loop cfg rt on_retry operation (Suc n) attempt lst w
      = (Raises (CatastrophicError m), snd (body operation w))"
    unfolding retry_loop_ends[OF nt] a by simp
next
  assume a: "follows_script calls operation script \<and> keeps_count calls rt on_retry
      \<and> int k \<le> max_retries cfg
      \<and> (\<forall>i<k. is_transient (script (calls w + i)))
      \<and> pauses_complete cfg rt on_retry k
      \<and> script (calls w + k) = Inl (CatastrophicError m)"
  have kn: "k < nat (max_retries cfg + 1)" using a by linarith
  have nt: "\<not> is_transient (script (calls w + k))" using a by simp
  have fs: "follows_script calls operation script" and kc: "keeps_count calls rt on_retry"
    and tr: "\<forall>i<k. is_transient (script (calls w + i))"
    using a by blast+
  have p: "\<forall>i<k. \<forall>e w'. fst (before_retry cfg rt on_retry (0 + i) e w') = Returns ()"
    using a by (simp add: pauses_complete_def)
  have d: "delivered operation (Inl (CatastrophicError m)) = Raises (CatastrophicError m)"
    by (cases operation) simp_all
  note r = retry_loop_stops[OF fs kc kn tr p nt, of None]
  show "fst (execute_with_retry cfg rt on_retry operation w) = Raises (CatastrophicError m)"
    using r a d by (simp add: execute_with_retry_def)
  show "calls (snd (execute_with_retry cfg rt on_retry operation w)) = calls w + k + 1"
    using r by (simp add: execute_with_retry_def)
next
  assume a: "ops = chain_operations cfg fallbacks primary \<and> k < length ops
      \<and> (\<forall>i<k. soft_failure (attempt_outcome cfg rt ops i w))
      \<and> attempt_outcome cfg rt ops k w = Inl (CatastrophicError m)"
  have o: "attempt_outcome cfg rt ops k w = Inl (CatastrophicError m)" using a by blast
  have ns: "\<not> soft_failure (attempt_outcome cfg rt ops k w)" unfolding o by simp
  have "chain_loop cfg rt (length ops) 0 ops w
      = ((case attempt_outcome cfg rt ops k w of
            Inr v \<Rightarrow> Inr \<lparr>success = True, fb_result = v, fallback_level = 0 + k,
                          fb_error = None\<rparr>
          | Inl e \<Rightarrow> Inl e),
         after_attempts cfg rt (take (Suc k) ops) w)"
  proof (rule chain_loop_stops)
    show "length ops = 0 + length ops" by simp
    show "k < length ops" using a by blast
    show "\<forall>i<k. soft_failure (attempt_outcome cfg rt ops i w)" using a by blast
    show "\<not> soft_failure (attempt_outcome cfg rt ops k w)" by (rule ns)
  qed
  moreover have "chain_execute cfg rt fallbacks primary w = chain_loop cfg rt (length ops) 0 ops w"
    using a by (simp add: chain_execute_def Let_def)
  ultimately show "chain_execute cfg rt fallbacks primary w
      = (Inl (CatastrophicError m), after_attempts cfg rt (take (Suc k) ops) w)"
    unfolding o by simp
next
  assume a: "state cb \<noteq> OPEN \<and> body operation w = (Inl (CatastrophicError m), w')"
  have c: "circuit_execute cfg rt operation (cb, w)
     = (Inl (CatastrophicError m), (record_failure cfg (time_now rt w') cb, w'))"
    using a circuit_execute_raises[of cb operation w m w' cfg rt] by blast
  show "fst (circuit_execute cfg rt operation (cb, w)) = Inl (CatastrophicError m)"
    unfolding c by simp
  show "snd (circuit_execute cfg rt operation (cb, w))
      = (record_failure cfg (time_now rt w') cb, w')"
    unfolding c by simp
  show "failure_count (fst (snd (circuit_execute cfg rt operation (cb, w)))) = failure_count cb + 1"
    unfolding c using record_failure_fields[of cfg "time_now rt w'" cb] by simp
  show "last_failure_time (fst (snd (circuit_execute cfg rt operation (cb, w))))
      = Some (time_now rt w')"
    unfolding c using record_failure_fields[of cfg "time_now rt w'" cb] by simp
  show "state (fst (snd (circuit_execute cfg rt operation (cb, w))))
      = (if state cb = HALF_OPEN \<or> failure_count cb + 1 \<ge> failure_threshold cfg
         then OPEN else state cb)"
    unfolding c using record_failure_fields[of cfg "time_now rt w'" cb] by simp
qed

theorem catastrophic_error_propagation_witness:
  "execute_with_retry default_config still_runtime None
      (scripted [] (Inl (CatastrophicError ''Security violation''))) 0
     = (Raises (CatastrophicError ''Security violation''), 1)
   \<and> chain_execute default_config still_runtime
        [scripted [] (Inr (Str ''Fallback result''))]
        (scripted [] (Inl (CatastrophicError ''Security violation''))) 0
     = (Inl (CatastrophicError ''Security violation''), 1)
   \<and> fst (circuit_execute default_config clock_runtime security_violation
            (new_circuit_breaker ''svc'', 7))
     = Inl (CatastrophicError ''Security violation'')
   \<and> failure_count (fst (snd (circuit_execute default_config clock_runtime security_violation
            (new_circuit_breaker ''svc'', 7)))) = 1
   \<and> last_failure_time (fst (snd (circuit_execute default_config clock_runtime
            security_violation (new_circuit_breaker ''svc'', 7)))) = Some (Finite 7)"
proof -
  define cat :: "exn + val" where "cat = Inl (CatastrophicError ''Security violation'')"
  define ops :: "nat callable list" where
    "ops = [scripted [] cat, scripted [] (Inr (Str ''Fallback result''))]"
  have fs: "follows_script (\<lambda>n. n) (scripted [] cat) (\<lambda>n. cat)"
    by (simp add: follows_script_def scripted_def)
  have kc: "keeps_count (\<lambda>n::nat. n) still_runtime None" by (rule still_runtime_keeps)
  have pc: "pauses_complete default_config (still_runtime :: nat runtime) None 0"
    by (simp add: pauses_complete_def)
  have o: "ops = chain_operations default_config [scripted [] (Inr (Str ''Fallback result''))]
      (scripted [] cat)"
    by (simp add: ops_def chain_operations_def slice_to_def default_config_def)
  have o0: "attempt_outcome default_config still_runtime ops 0 0
      = Inl (CatastrophicError ''Security violation'')"
    by (simp add: attempt_outcome_def timed_attempt_def ops_def scripted_def cat_def)
  have aw: "after_attempts default_config still_runtime (take (Suc 0) ops) 0 = 1"
    by (simp add: ops_def scripted_def timed_attempt_def)
  have co: "body security_violation (7::real)
      = (Inl (CatastrophicError ''Security violation''), 7)"
    by (simp add: security_violation_def)
  have st: "state (new_circuit_breaker ''svc'') \<noteq> OPEN"
    "failure_count (new_circuit_breaker ''svc'') = 0"
    by (simp_all add: new_circuit_breaker_def)
  have a: "execute_with_retry default_config still_runtime None (scripted [] cat) 0
      = (Raises (CatastrophicError ''Security violation''), 1)"
    using fs kc pc
      catastrophic_error_propagation[where cfg = default_config
        and m = "''Security violation''" and k = 0 and w = 0
        and calls = "\<lambda>n. n" and operation = "scripted [] cat" and rt = still_runtime
        and on_retry = None and script = "\<lambda>n. cat",
        THEN conjunct2, THEN conjunct1]
    by (simp add: cat_def default_config_def prod_eq_iff)
  have l: "0 < length ops" by (simp add: ops_def)
  have hyp: "ops = chain_operations default_config [scripted [] (Inr (Str ''Fallback result''))]
        (scripted [] cat) \<and> 0 < length ops
      \<and> (\<forall>i<0. soft_failure (attempt_outcome default_config still_runtime ops i 0))
      \<and> attempt_outcome default_config still_runtime ops 0 0
          = Inl (CatastrophicError ''Security violation'')"
    using o l o0 by blast
  have b0: "chain_execute default_config still_runtime [scripted [] (Inr (Str ''Fallback result''))]
        (scripted [] cat) 0
      = (Inl (CatastrophicError ''Security violation''),
         after_attempts default_config still_runtime (take (Suc 0) ops) 0)"
    using catastrophic_error_propagation[where cfg = default_config
        and m = "''Security violation''" and k = 0 and w = 0
        and ops = ops and rt = still_runtime
        and fallbacks = "[scripted [] (Inr (Str ''Fallback result''))]"
        and primary = "scripted [] cat",
        THEN conjunct2, THEN conjunct2, THEN conjunct1, THEN mp, OF hyp] .
  have b: "chain_execute default_config still_runtime [scripted [] (Inr (Str ''Fallback result''))]
        (scripted [] cat) 0 = (Inl (CatastrophicError ''Security violation''), 1)"
    using b0 unfolding aw .
  note c = catastrophic_error_propagation[where cfg = default_config
      and m = "''Security violation''" and w = "7::real" and w' = "7::real"
      and cb = "new_circuit_breaker ''svc''" and rt = clock_runtime
      and operation = security_violation, THEN conjunct2, THEN conjunct2, THEN conjunct2]
  have c': "fst (circuit_execute default_config clock_runtime security_violation
            (new_circuit_breaker ''svc'', 7))
     = Inl (CatastrophicError ''Security violation'')
   \<and> failure_count (fst (snd (circuit_execute default_config clock_runtime security_violation
            (new_circuit_breaker ''svc'', 7)))) = 1
   \<and> last_failure_time (fst (snd (circuit_execute default_config clock_runtime
            security_violation (new_circuit_breaker ''svc'', 7)))) = Some (Finite 7)"
  proof -
    have hc: "state (new_circuit_breaker ''svc'') \<noteq> OPEN
        \<and> body security_violation (7::real)
            = (Inl (CatastrophicError ''Security violation''), 7)"
      using st co by blast
    have tn: "time_now clock_runtime (7::real) = Finite 7" by (simp add: clock_runtime_def)
    note r = c[THEN mp, OF hc]
    have f1: "fst (circuit_execute default_config clock_runtime security_violation
            (new_circuit_breaker ''svc'', 7)) = Inl (CatastrophicError ''Security violation'')"
      using r by blast
    have f3: "failure_count (fst (snd (circuit_execute default_config clock_runtime
            security_violation (new_circuit_breaker ''svc'', 7))))
        = failure_count (new_circuit_breaker ''svc'') + 1"
      using r by blast
    have f4: "last_failure_time (fst (snd (circuit_execute default_config clock_runtime
            security_violation (new_circuit_breaker ''svc'', 7))))
        = Some (time_now clock_runtime 7)"
      using r by blast
    show ?thesis unfolding f1 f3 f4 tn st(2) by simp
  qed
  show ?thesis using a b c' unfolding cat_def by blast
qed

text \<open>
  The claim as stated fails on the circuit breaker: one CatastrophicError raises the
  failure count of a new breaker to 1 and sets the time of its last failure, and three of
  them open it (\<open>failure_threshold = 3\<close>).
\<close>

theorem circuit_breaker_records_catastrophic_counterexample:
  "failure_count (fst (snd (circuit_execute demo_config clock_runtime security_violation
      (new_circuit_breaker ''svc'', 7)))) = 1
   \<and> last_failure_time (fst (snd (circuit_execute demo_config clock_runtime security_violation
      (new_circuit_breaker ''svc'', 7)))) = Some (Finite 7)
   \<and> state (fst (circuit_calls demo_config clock_runtime
      [security_violation, security_violation, security_violation]
      (new_circuit_breaker ''svc'', 7))) = OPEN"
  by (simp add: circuit_execute_def is_open_def circuit_settle_def record_failure_def
      security_violation_def new_circuit_breaker_def demo_config_def default_config_def
      clock_runtime_def Let_def)

subsection \<open>The resilient executor\<close>

lemma retry_of_lambda:
  assumes "0 \<le> max_retries cfg"
  shows "execute_with_retry cfg rt on_retry circuit_execute_lambda w
     = (Returns CoroutineObject, w)"
proof -
  have "nat (max_retries cfg + 1) = Suc (nat (max_retries cfg))" using assms by linarith
  then show ?thesis
    by (simp add: execute_with_retry_def circuit_execute_lambda_def run_in_executor_def)
qed

lemma chain_of_none_lambda:
  "chain_execute cfg rt fallbacks none_lambda w
     = (Inr \<lparr>success = True, fb_result = NoneVal, fallback_level = 0, fb_error = None\<rparr>, w)"
  by (simp add: chain_execute_def chain_operations_def none_lambda_def Let_def)

text \<open>
  Whatever the operation and the fallbacks: when the breaker lets the call through, the
  result is the coroutine object and the world is unchanged, so neither the operation nor
  a fallback has been called; when the breaker is open and fallbacks are given, the result
  is \<^verbatim>\<open>None\<close> and the world is unchanged as well.
\<close>

lemma resilient_execute_never_calls:
  assumes "0 \<le> max_retries cfg"
  shows "fst (resilient_execute cfg rt operation circuit_name fallbacks (breakers, w))
       = (if fst (is_open cfg (double_ops rt) (time_now rt w)
                    (fst (get_circuit_breaker circuit_name breakers)))
          then (if fallbacks = None \<or> fallbacks = Some []
                then Raises (TransientError
                       (''Circuit '' @ circuit_name @ '' is open and no fallbacks''))
                else Returns NoneVal)
          else Returns CoroutineObject)
     \<and> snd (snd (resilient_execute cfg rt operation circuit_name fallbacks (breakers, w))) = w"
  by (cases fallbacks)
     (auto simp: resilient_execute_def retry_of_lambda[OF assms] chain_of_none_lambda Let_def
       split: prod.splits)

text \<open>
  C2 at the calls of the demo in \<^verbatim>\<open>main\<close>, with operations that count their calls
  in the world. With a new executor, the call with an operation that always fails, circuit
  \<open>test2\<close> and one fallback returns a coroutine object, and so does the call with the
  operation that fails twice and then succeeds, circuit \<open>test1\<close> and no fallback: the
  world still counts 0 calls and the new breaker has recorded nothing, so the primary
  action has not run under the retry and no fallback has run. With the breaker OPEN and
  one fallback, the call returns \<^verbatim>\<open>None\<close> and the fallback has not been called either.
\<close>

theorem resilient_execute_returns_coroutine:
  "resilient_execute demo_config still_runtime
      (scripted [] (Inl (TransientError ''Always fails''))) ''test2''
      (Some [scripted [] (Inr (Str ''Fallback result''))]) (Map.empty, 0)
     = (Returns CoroutineObject, ([''test2'' \<mapsto> new_circuit_breaker ''test2''], 0))
   \<and> resilient_execute demo_config still_runtime
      (scripted [Inl (TransientError ''Simulated failure #1''),
                 Inl (TransientError ''Simulated failure #2'')]
         (Inr (Str ''Success on attempt 3''))) ''test1'' None (Map.empty, 0)
     = (Returns CoroutineObject, ([''test1'' \<mapsto> new_circuit_breaker ''test1''], 0))
   \<and> resilient_execute demo_config still_runtime
      (scripted [] (Inl (TransientError ''Always fails''))) ''test3''
      (Some [scripted [] (Inr (Str ''Fallback result''))])
      ([''test3'' \<mapsto> (new_circuit_breaker ''test3'')
          \<lparr>state := OPEN, failure_count := 3, last_failure_time := Some (Finite 0)\<rparr>], 0)
     = (Returns NoneVal,
        ([''test3'' \<mapsto> (new_circuit_breaker ''test3'')
          \<lparr>state := OPEN, failure_count := 3, last_failure_time := Some (Finite 0)\<rparr>], 0))"
proof -
  have m: "0 \<le> max_retries demo_config" by (simp add: demo_config_def default_config_def)
  show ?thesis
    by (simp add: resilient_execute_def retry_of_lambda[OF m] chain_of_none_lambda
        get_circuit_breaker_def is_open_def should_attempt_recovery_def
        new_circuit_breaker_def still_runtime_def exact_arith_def f_sub_def f_ge_def
        to_float_small Let_def)
       (simp add: demo_config_def default_config_def)
qed

text \<open>
  The handler of the retry is reached when \<open>max_retries\<close> is negative (the loop has no
  iteration). The chain it builds has all the fallbacks in its list and the first one as
  primary as well, so the first fallback is called twice: here its first call fails and
  its second call provides the result.
\<close>

lemma resilient_execute_repeats_first_fallback:
  "resilient_execute (demo_config\<lparr>max_retries := - 1\<rparr>) still_runtime
      (scripted [] (Inr (Str ''primary''))) ''svc''
      (Some [scripted [Inl (PermanentError ''first call'')] (Inr (Str ''second call'')),
             scripted [] (Inr (Str ''second fallback''))]) (Map.empty, 0)
     = (Returns (Str ''second call''), ([''svc'' \<mapsto> new_circuit_breaker ''svc''], 2))"
  by (simp add: resilient_execute_def get_circuit_breaker_def is_open_def
      should_attempt_recovery_def execute_with_retry_def circuit_execute_lambda_def
      none_lambda_def chain_execute_def chain_operations_def slice_to_def
      new_circuit_breaker_def demo_config_def default_config_def still_runtime_def
      scripted_def Let_def)

end
